theory Spec2Isabelle
  imports Complex_Main "HOL-Library.Sublist" "HOL-Library.Log_Nat"
begin

section \<open>Strings\<close>

text \<open>
  A Go string is a sequence of bytes, modelled as \<^typ>\<open>string\<close>. The scanning loops of the
  program iterate over code points (\<^verbatim>\<open>for i, char := range s\<close>), where \<^verbatim>\<open>i\<close> is the byte offset of
  the code point. Every character the loops test for (backslash, double quote, newline, carriage
  return, tab, braces) is ASCII, and in UTF-8 no byte of a multi-byte code point is below 0x80, so
  on UTF-8 text the loops are modelled byte by byte with the same offsets. The response texts
  come out of a JSON decoder and are valid UTF-8.

  The Google provider and the Ollama client each hold a copy of the extraction functions
  (\<^verbatim>\<open>extractJSON\<close> and what it calls). The two copies are the same code and are modelled once;
  the two copies of \<^verbatim>\<open>ChatWithRetry\<close> and \<^verbatim>\<open>classifyError\<close> differ and are modelled each.
\<close>

abbreviation bslash :: char where "bslash \<equiv> CHR 0x5C"
abbreviation dquote :: char where "dquote \<equiv> CHR 0x22"
abbreviation newline :: char where "newline \<equiv> CHR 0x0A"
abbreviation creturn :: char where "creturn \<equiv> CHR 0x0D"
abbreviation tab :: char where "tab \<equiv> CHR 0x09"

section \<open>The repair pass\<close>

text \<open>
  \<^verbatim>\<open>fixUnescapedNewlines\<close>: one iteration of the loop, for the state \<open>(inString, escaped)\<close> and the
  character \<open>c\<close>. The \<^verbatim>\<open>switch\<close> gives the text written to the builder and the state after
  the chosen case; the trailing \<^verbatim>\<open>if escaped && char != '\\'\<close> then clears \<open>escaped\<close>.
\<close>

definition fixStep :: "bool \<times> bool \<Rightarrow> char \<Rightarrow> string \<times> (bool \<times> bool)" where
  "fixStep st c =
     (case st of (inString, escaped) \<Rightarrow>
        (case (if c = bslash \<and> \<not> escaped then ([c], inString, True)
               else if c = dquote \<and> \<not> escaped then ([c], \<not> inString, escaped)
               else if c = newline \<and> inString \<and> \<not> escaped then ([bslash, CHR ''n''], inString, escaped)
               else if c = creturn \<and> inString \<and> \<not> escaped then ([bslash, CHR ''r''], inString, escaped)
               else if c = tab \<and> inString \<and> \<not> escaped then ([bslash, CHR ''t''], inString, escaped)
               else ([c], inString, escaped))
         of (out, inString1, escaped1) \<Rightarrow>
           (out, (inString1, if escaped1 \<and> c \<noteq> bslash then False else escaped1))))"

fun fixLoop :: "bool \<times> bool \<Rightarrow> string \<Rightarrow> string" where
  "fixLoop st [] = []"
| "fixLoop st (c # cs) = fst (fixStep st c) @ fixLoop (snd (fixStep st c)) cs"

definition fixUnescapedNewlines :: "string \<Rightarrow> string" where
  "fixUnescapedNewlines jsonStr = fixLoop (False, False) jsonStr"

definition repairCommonJSONIssues :: "string \<Rightarrow> string" where
  "repairCommonJSONIssues jsonStr = fixUnescapedNewlines jsonStr"

text \<open>The scanner state of the repair loop after a run of characters, and after each character.\<close>

fun fixEnd :: "bool \<times> bool \<Rightarrow> string \<Rightarrow> bool \<times> bool" where
  "fixEnd st [] = st"
| "fixEnd st (c # cs) = fixEnd (snd (fixStep st c)) cs"

fun fixStates :: "bool \<times> bool \<Rightarrow> string \<Rightarrow> (bool \<times> bool) list" where
  "fixStates st [] = []"
| "fixStates st (c # cs) = snd (fixStep st c) # fixStates (snd (fixStep st c)) cs"

section \<open>The balanced-span extractor\<close>

text \<open>
  \<^verbatim>\<open>extractJSONBoundaries\<close> keeps its own copy of the scanner. Its update of
  \<open>(inString, escaped)\<close> for one character: an unescaped backslash sets \<open>escaped\<close> and
  skips the rest of the iteration (\<^verbatim>\<open>continue\<close>); otherwise an unescaped quote toggles \<open>inString\<close>
  and \<open>escaped\<close> is cleared.
\<close>

definition ejbScan :: "bool \<times> bool \<Rightarrow> char \<Rightarrow> bool \<times> bool" where
  "ejbScan st c =
     (case st of (inString, escaped) \<Rightarrow>
        if c = bslash \<and> \<not> escaped then (inString, True)
        else (if c = dquote \<and> \<not> escaped then \<not> inString else inString, False))"

fun ejbEnd :: "bool \<times> bool \<Rightarrow> string \<Rightarrow> bool \<times> bool" where
  "ejbEnd st [] = st"
| "ejbEnd st (c # cs) = ejbEnd (ejbScan st c) cs"

fun ejbStates :: "bool \<times> bool \<Rightarrow> string \<Rightarrow> (bool \<times> bool) list" where
  "ejbStates st [] = []"
| "ejbStates st (c # cs) = ejbScan st c # ejbStates (ejbScan st c) cs"

text \<open>\<^verbatim>\<open>s[lo:hi]\<close>, used with \<open>0 \<le> lo \<le> hi \<le> len(s)\<close> only.\<close>

definition slice :: "string \<Rightarrow> int \<Rightarrow> int \<Rightarrow> string" where
  "slice s lo hi = take (nat (hi - lo)) (drop (nat lo) s)"

text \<open>
  The loop of \<^verbatim>\<open>extractJSONBoundaries\<close> over the rest \<open>c # cs\<close> of the response, at byte
  offset \<open>i\<close>, with the variables \<open>start\<close> (\<open>-1\<close> when unset), \<open>count\<close> and the scanner state.
  \<open>valid\<close> is the validity check \<^verbatim>\<open>isValidJSON\<close>.
\<close>

fun ejbLoop ::
  "(string \<Rightarrow> bool) \<Rightarrow> string \<Rightarrow> char \<Rightarrow> char \<Rightarrow> int \<Rightarrow> int \<Rightarrow> int \<Rightarrow> bool \<times> bool \<Rightarrow> string \<Rightarrow> string" where
  "ejbLoop valid response openChar closeChar i start count st [] = []"
| "ejbLoop valid response openChar closeChar i start count st (c # cs) =
     (if c = bslash \<and> \<not> snd st then
        ejbLoop valid response openChar closeChar (i + 1) start count (ejbScan st c) cs
      else if fst (ejbScan st c) then
        ejbLoop valid response openChar closeChar (i + 1) start count (ejbScan st c) cs
      else if c = openChar then
        ejbLoop valid response openChar closeChar (i + 1) (if start = - 1 then i else start) (count + 1)
          (ejbScan st c) cs
      else if c = closeChar then
        (if count - 1 = 0 \<and> start \<noteq> - 1 then
           (if valid (slice response start (i + 1)) then slice response start (i + 1)
            else ejbLoop valid response openChar closeChar (i + 1) (- 1) 0 (ejbScan st c) cs)
         else ejbLoop valid response openChar closeChar (i + 1) start (count - 1) (ejbScan st c) cs)
      else ejbLoop valid response openChar closeChar (i + 1) start count (ejbScan st c) cs)"

definition extractJSONBoundaries :: "(string \<Rightarrow> bool) \<Rightarrow> string \<Rightarrow> char \<Rightarrow> char \<Rightarrow> string" where
  "extractJSONBoundaries valid response openChar closeChar =
     ejbLoop valid response openChar closeChar 0 (- 1) 0 (False, False) response"

definition extractWithBraceCounting :: "(string \<Rightarrow> bool) \<Rightarrow> string \<Rightarrow> string" where
  "extractWithBraceCounting valid response = extractJSONBoundaries valid response (CHR ''{'') (CHR ''}'')"

text \<open>
  The depth counter on its own: in the text after an opener, with \<open>count\<close> open spans, the
  offset of the closer at which the loop above sees the depth return to zero (the branches of
  the loop, without slicing and validation).
\<close>

fun spanEnd :: "char \<Rightarrow> char \<Rightarrow> int \<Rightarrow> bool \<times> bool \<Rightarrow> string \<Rightarrow> nat option" where
  "spanEnd openChar closeChar count st [] = None"
| "spanEnd openChar closeChar count st (c # cs) =
     (if c = bslash \<and> \<not> snd st then map_option Suc (spanEnd openChar closeChar count (ejbScan st c) cs)
      else if fst (ejbScan st c) then map_option Suc (spanEnd openChar closeChar count (ejbScan st c) cs)
      else if c = openChar then map_option Suc (spanEnd openChar closeChar (count + 1) (ejbScan st c) cs)
      else if c = closeChar then
        (if count - 1 = 0 then Some 0
         else map_option Suc (spanEnd openChar closeChar (count - 1) (ejbScan st c) cs))
      else map_option Suc (spanEnd openChar closeChar count (ejbScan st c) cs))"

section \<open>Library string functions\<close>

text \<open>
  \<^verbatim>\<open>strings.TrimSpace\<close> removes leading and trailing white space as Unicode defines it. The
  list holds the UTF-8 encodings of the white-space code points: U+0009 to U+000D, U+0020,
  U+0085, U+00A0, U+1680, U+2000 to U+200A, U+2028, U+2029, U+202F, U+205F and U+3000.
\<close>

definition spaceRunes :: "string list" where
  "spaceRunes =
     [[CHR 0x09], [CHR 0x0A], [CHR 0x0B], [CHR 0x0C], [CHR 0x0D], [CHR 0x20],
      [CHR 0xC2, CHR 0x85], [CHR 0xC2, CHR 0xA0], [CHR 0xE1, CHR 0x9A, CHR 0x80],
      [CHR 0xE2, CHR 0x80, CHR 0x80], [CHR 0xE2, CHR 0x80, CHR 0x81], [CHR 0xE2, CHR 0x80, CHR 0x82],
      [CHR 0xE2, CHR 0x80, CHR 0x83], [CHR 0xE2, CHR 0x80, CHR 0x84], [CHR 0xE2, CHR 0x80, CHR 0x85],
      [CHR 0xE2, CHR 0x80, CHR 0x86], [CHR 0xE2, CHR 0x80, CHR 0x87], [CHR 0xE2, CHR 0x80, CHR 0x88],
      [CHR 0xE2, CHR 0x80, CHR 0x89], [CHR 0xE2, CHR 0x80, CHR 0x8A], [CHR 0xE2, CHR 0x80, CHR 0xA8],
      [CHR 0xE2, CHR 0x80, CHR 0xA9], [CHR 0xE2, CHR 0x80, CHR 0xAF], [CHR 0xE2, CHR 0x81, CHR 0x9F],
      [CHR 0xE3, CHR 0x80, CHR 0x80]]"

function trimPrefixes :: "string list \<Rightarrow> string \<Rightarrow> string" where
  "trimPrefixes ws s =
     (case find (\<lambda>w. w \<noteq> [] \<and> prefix w s) ws of
        None \<Rightarrow> s
      | Some w \<Rightarrow> trimPrefixes ws (drop (length w) s))"
  by pat_completeness auto
termination
proof (relation "measure (\<lambda>(ws, s). length s)")
  show "wf (measure (\<lambda>(ws, s). length s))" by simp
next
  fix ws :: "string list" and s w :: string
  assume "find (\<lambda>w. w \<noteq> [] \<and> prefix w s) ws = Some w"
  then have "w \<noteq> []" and "prefix w s"
    by (auto simp: find_Some_iff)
  then have "0 < length w" and "length w \<le> length s"
    by (auto simp: prefix_length_le)
  then have "length s - length w < length s"
    by arith
  then show "((ws, drop (length w) s), (ws, s)) \<in> measure (\<lambda>(ws, s). length s)"
    by simp
qed

declare trimPrefixes.simps [simp del]

definition TrimSpace :: "string \<Rightarrow> string" where
  "TrimSpace s = rev (trimPrefixes (map rev spaceRunes) (rev (trimPrefixes spaceRunes s)))"

text \<open>\<^verbatim>\<open>strings.Index\<close>: the offset of the first occurrence, \<open>None\<close> for Go's \<open>-1\<close>.\<close>

fun Index :: "string \<Rightarrow> string \<Rightarrow> nat option" where
  "Index [] sep = (if sep = [] then Some 0 else None)"
| "Index (c # cs) sep = (if prefix sep (c # cs) then Some 0 else map_option Suc (Index cs sep))"

definition Contains :: "string \<Rightarrow> string \<Rightarrow> bool" where
  "Contains s sep = (Index s sep \<noteq> None)"

section \<open>JSON validity\<close>

text \<open>
  \<^verbatim>\<open>isValidJSON\<close> calls \<^verbatim>\<open>json.Unmarshal\<close> of Go's standard library into an empty interface.
  The extraction functions below take the validity check as the parameter \<open>valid\<close>, so that
  what is proved of them holds for every check. For concrete inputs, \<open>isValidJSON\<close> is the
  syntax check that \<^verbatim>\<open>json.Unmarshal\<close> runs first (the scanner of \<^verbatim>\<open>encoding/json\<close>: one
  step function per state and a stack of open objects and arrays, at most 10000 deep). The
  decoder's later check that a number literal fits a 64-bit float is not modelled.
\<close>

datatype parseState = parseObjectKey | parseObjectValue | parseArrayValue

datatype scanStep =
    stateBeginValueOrEmpty | stateBeginValue | stateBeginStringOrEmpty | stateBeginString
  | stateEndValue | stateEndTop
  | stateInString | stateInStringEsc | stateInStringEscU | stateInStringEscU1
  | stateInStringEscU12 | stateInStringEscU123
  | stateNeg | state1 | state0 | stateDot | stateDot0 | stateE | stateESign | stateE0
  | stateT | stateTr | stateTru | stateF | stateFa | stateFal | stateFals
  | stateN | stateNu | stateNul

definition isSpace :: "char \<Rightarrow> bool" where
  "isSpace c = (c = CHR '' '' \<or> c = tab \<or> c = creturn \<or> c = newline)"

definition isDigit :: "char \<Rightarrow> bool" where
  "isDigit c = (c \<in> set ''0123456789'')"

definition isDigit19 :: "char \<Rightarrow> bool" where
  "isDigit19 c = (c \<in> set ''123456789'')"

definition isHex :: "char \<Rightarrow> bool" where
  "isHex c = (c \<in> set ''0123456789abcdefABCDEF'')"

definition popParseState :: "parseState list \<Rightarrow> scanStep \<times> parseState list" where
  "popParseState rest = (if rest = [] then stateEndTop else stateEndValue, rest)"

definition pushParseState :: "scanStep \<Rightarrow> parseState \<Rightarrow> parseState list \<Rightarrow> (scanStep \<times> parseState list) option" where
  "pushParseState step p stack =
     (if int (length (p # stack)) \<le> 10000 then Some (step, p # stack) else None)"

fun stateEndValueStep :: "parseState list \<Rightarrow> char \<Rightarrow> (scanStep \<times> parseState list) option" where
  "stateEndValueStep [] c = (if isSpace c then Some (stateEndTop, []) else None)"
| "stateEndValueStep (ps # rest) c =
     (if isSpace c then Some (stateEndValue, ps # rest)
      else case ps of
        parseObjectKey \<Rightarrow>
          if c = CHR '':'' then Some (stateBeginValue, parseObjectValue # rest) else None
      | parseObjectValue \<Rightarrow>
          if c = CHR '','' then Some (stateBeginString, parseObjectKey # rest)
          else if c = CHR ''}'' then Some (popParseState rest)
          else None
      | parseArrayValue \<Rightarrow>
          if c = CHR '','' then Some (stateBeginValue, parseArrayValue # rest)
          else if c = CHR '']'' then Some (popParseState rest)
          else None)"

definition stateBeginStringStep :: "parseState list \<Rightarrow> char \<Rightarrow> (scanStep \<times> parseState list) option" where
  "stateBeginStringStep stack c =
     (if isSpace c then Some (stateBeginString, stack)
      else if c = dquote then Some (stateInString, stack)
      else None)"

definition stateBeginValueStep :: "parseState list \<Rightarrow> char \<Rightarrow> (scanStep \<times> parseState list) option" where
  "stateBeginValueStep stack c =
     (if isSpace c then Some (stateBeginValue, stack)
      else if c = CHR ''{'' then pushParseState stateBeginStringOrEmpty parseObjectKey stack
      else if c = CHR ''['' then pushParseState stateBeginValueOrEmpty parseArrayValue stack
      else if c = dquote then Some (stateInString, stack)
      else if c = CHR ''-'' then Some (stateNeg, stack)
      else if c = CHR ''0'' then Some (state0, stack)
      else if c = CHR ''t'' then Some (stateT, stack)
      else if c = CHR ''f'' then Some (stateF, stack)
      else if c = CHR ''n'' then Some (stateN, stack)
      else if isDigit19 c then Some (state1, stack)
      else None)"

definition state0Step :: "parseState list \<Rightarrow> char \<Rightarrow> (scanStep \<times> parseState list) option" where
  "state0Step stack c =
     (if c = CHR ''.'' then Some (stateDot, stack)
      else if c = CHR ''e'' \<or> c = CHR ''E'' then Some (stateE, stack)
      else stateEndValueStep stack c)"

definition stateESignStep :: "parseState list \<Rightarrow> char \<Rightarrow> (scanStep \<times> parseState list) option" where
  "stateESignStep stack c = (if isDigit c then Some (stateE0, stack) else None)"

definition expect :: "char \<Rightarrow> char \<Rightarrow> scanStep \<Rightarrow> parseState list \<Rightarrow> (scanStep \<times> parseState list) option" where
  "expect c want next stack = (if c = want then Some (next, stack) else None)"

fun scanStepFn :: "scanStep \<Rightarrow> parseState list \<Rightarrow> char \<Rightarrow> (scanStep \<times> parseState list) option" where
  "scanStepFn stateBeginValueOrEmpty stack c =
     (if isSpace c then Some (stateBeginValueOrEmpty, stack)
      else if c = CHR '']'' then stateEndValueStep stack c
      else stateBeginValueStep stack c)"
| "scanStepFn stateBeginValue stack c = stateBeginValueStep stack c"
| "scanStepFn stateBeginStringOrEmpty stack c =
     (if isSpace c then Some (stateBeginStringOrEmpty, stack)
      else if c = CHR ''}'' then stateEndValueStep (parseObjectValue # tl stack) c
      else stateBeginStringStep stack c)"
| "scanStepFn stateBeginString stack c = stateBeginStringStep stack c"
| "scanStepFn stateEndValue stack c = stateEndValueStep stack c"
| "scanStepFn stateEndTop stack c = (if isSpace c then Some (stateEndTop, stack) else None)"
| "scanStepFn stateInString stack c =
     (if c = dquote then Some (stateEndValue, stack)
      else if c = bslash then Some (stateInStringEsc, stack)
      else if (of_char c :: int) < 32 then None
      else Some (stateInString, stack))"
| "scanStepFn stateInStringEsc stack c =
     (if c \<in> set ''bfnrt/'' \<or> c = bslash \<or> c = dquote then Some (stateInString, stack)
      else if c = CHR ''u'' then Some (stateInStringEscU, stack)
      else None)"
| "scanStepFn stateInStringEscU stack c = (if isHex c then Some (stateInStringEscU1, stack) else None)"
| "scanStepFn stateInStringEscU1 stack c = (if isHex c then Some (stateInStringEscU12, stack) else None)"
| "scanStepFn stateInStringEscU12 stack c = (if isHex c then Some (stateInStringEscU123, stack) else None)"
| "scanStepFn stateInStringEscU123 stack c = (if isHex c then Some (stateInString, stack) else None)"
| "scanStepFn stateNeg stack c =
     (if c = CHR ''0'' then Some (state0, stack)
      else if isDigit19 c then Some (state1, stack)
      else None)"
| "scanStepFn state1 stack c = (if isDigit c then Some (state1, stack) else state0Step stack c)"
| "scanStepFn state0 stack c = state0Step stack c"
| "scanStepFn stateDot stack c = (if isDigit c then Some (stateDot0, stack) else None)"
| "scanStepFn stateDot0 stack c =
     (if isDigit c then Some (stateDot0, stack)
      else if c = CHR ''e'' \<or> c = CHR ''E'' then Some (stateE, stack)
      else stateEndValueStep stack c)"
| "scanStepFn stateE stack c =
     (if c = CHR ''+'' \<or> c = CHR ''-'' then Some (stateESign, stack) else stateESignStep stack c)"
| "scanStepFn stateESign stack c = stateESignStep stack c"
| "scanStepFn stateE0 stack c = (if isDigit c then Some (stateE0, stack) else stateEndValueStep stack c)"
| "scanStepFn stateT stack c = expect c (CHR ''r'') stateTr stack"
| "scanStepFn stateTr stack c = expect c (CHR ''u'') stateTru stack"
| "scanStepFn stateTru stack c = expect c (CHR ''e'') stateEndValue stack"
| "scanStepFn stateF stack c = expect c (CHR ''a'') stateFa stack"
| "scanStepFn stateFa stack c = expect c (CHR ''l'') stateFal stack"
| "scanStepFn stateFal stack c = expect c (CHR ''s'') stateFals stack"
| "scanStepFn stateFals stack c = expect c (CHR ''e'') stateEndValue stack"
| "scanStepFn stateN stack c = expect c (CHR ''u'') stateNu stack"
| "scanStepFn stateNu stack c = expect c (CHR ''l'') stateNul stack"
| "scanStepFn stateNul stack c = expect c (CHR ''l'') stateEndValue stack"

fun checkValid :: "scanStep \<times> parseState list \<Rightarrow> string \<Rightarrow> bool" where
  "checkValid (step, stack) [] =
     (step = stateEndTop \<or>
      (case scanStepFn step stack (CHR '' '') of
         None \<Rightarrow> False
       | Some (step', stack') \<Rightarrow> step' = stateEndTop))"
| "checkValid (step, stack) (c # cs) =
     (case scanStepFn step stack c of
        None \<Rightarrow> False
      | Some st' \<Rightarrow> checkValid st' cs)"

definition isValidJSON :: "string \<Rightarrow> bool" where
  "isValidJSON s = checkValid (stateBeginValue, []) s"

section \<open>The extraction pipeline\<close>

definition extractFromMarkdown :: "(string \<Rightarrow> bool) \<Rightarrow> string \<Rightarrow> string \<Rightarrow> string" where
  "extractFromMarkdown valid response marker =
     (case Index response marker of
        None \<Rightarrow> []
      | Some start \<Rightarrow>
          (let content = drop (start + length marker) response in
           case Index content ''```'' of
             None \<Rightarrow> []
           | Some end \<Rightarrow>
               (let candidate = TrimSpace (take end content) in
                if valid candidate then candidate else [])))"

text \<open>
  The two loops of \<^verbatim>\<open>extractWithAggressiveCleanup\<close>: the first matching prefix (suffix) is
  removed, the text trimmed, and the loop left. The suffixes \<^verbatim>\<open>"}"\<close> and \<^verbatim>\<open>"]"\<close> of the list are
  skipped by the loop's own condition.
\<close>

fun removePrefix :: "string list \<Rightarrow> string \<Rightarrow> string" where
  "removePrefix [] cleaned = cleaned"
| "removePrefix (p # ps) cleaned =
     (if prefix p cleaned then TrimSpace (drop (length p) cleaned) else removePrefix ps cleaned)"

fun removeSuffix :: "string list \<Rightarrow> string \<Rightarrow> string" where
  "removeSuffix [] cleaned = cleaned"
| "removeSuffix (x # xs) cleaned =
     (if suffix x cleaned \<and> x \<noteq> ''}'' \<and> x \<noteq> '']'' then
        TrimSpace (take (length cleaned - length x) cleaned)
      else removeSuffix xs cleaned)"

definition cleanupNoise :: "string \<Rightarrow> string" where
  "cleanupNoise response =
     removeSuffix [''```'', ''}'', '']'']
       (removePrefix [''```json'', ''```'', ''Here's the JSON:'', ''JSON:'', ''{'', ''[''] response)"

definition extractWithAggressiveCleanup :: "(string \<Rightarrow> bool) \<Rightarrow> string \<Rightarrow> string" where
  "extractWithAggressiveCleanup valid response =
     (let cleaned = cleanupNoise response
      in if valid cleaned then cleaned
         else extractJSONBoundaries valid cleaned (CHR ''{'') (CHR ''}''))"

definition extractJSON :: "(string \<Rightarrow> bool) \<Rightarrow> string \<Rightarrow> string" where
  "extractJSON valid response =
     (let cleaned = TrimSpace response in
      if valid cleaned then cleaned
      else if valid (repairCommonJSONIssues cleaned) then repairCommonJSONIssues cleaned
      else if Contains response ''```json'' \<and> extractFromMarkdown valid response ''```json'' \<noteq> [] then
        extractFromMarkdown valid response ''```json''
      else if Contains response ''```'' \<and> extractFromMarkdown valid response ''```'' \<noteq> [] then
        extractFromMarkdown valid response ''```''
      else if extractWithBraceCounting valid response \<noteq> [] then extractWithBraceCounting valid response
      else if extractWithAggressiveCleanup valid response \<noteq> [] then
        extractWithAggressiveCleanup valid response
      else [])"

section \<open>Errors and retry configuration\<close>

datatype errType =
    ErrConnectionFailed | ErrTimeout | ErrInvalidResponse | ErrJSONParseFailed
  | ErrModelNotAvailable | ErrRateLimitExceeded | ErrInvalidConfig | ErrOperationFailed

text \<open>
  \<^verbatim>\<open>LLMError\<close>. The field \<^verbatim>\<open>Message\<close> is \<open>Msg\<close> here (the response record below has a field
  of that name), \<open>Cause\<close> is the text of the wrapped error (\<open>None\<close> for \<^verbatim>\<open>nil\<close>), and the
  time stamp \<^verbatim>\<open>LastAttempt\<close> is left out.
\<close>

record LLMError =
  Type :: errType
  Msg :: string
  Retryable :: bool
  Operation :: string
  RetryCount :: int
  Cause :: "string option"

definition NewLLMError :: "errType \<Rightarrow> string \<Rightarrow> string \<Rightarrow> bool \<Rightarrow> int \<Rightarrow> string option \<Rightarrow> LLMError" where
  "NewLLMError errType message operation retryable retryCount cause =
     \<lparr>Type = errType, Msg = message, Retryable = retryable, Operation = operation,
      RetryCount = retryCount, Cause = cause\<rparr>"

definition IsRetryable :: "LLMError \<Rightarrow> bool" where
  "IsRetryable err = Retryable err"

section \<open>64-bit floating point\<close>

text \<open>
  The backoff is computed in \<^verbatim>\<open>float64\<close>. A finite value is the rational number it stands
  for (the two zeros are one value here; their sign has no effect on a product's conversion to
  an integer). \<open>toFloat64\<close> rounds a rational to the nearest value of the format (53 significant
  bits \<open>m\<close> scaled by \<open>2\<^sup>q\<close>, with \<open>q\<close> from \<open>-1074\<close> to \<open>971\<close>), ties to the even significand, and to
  an infinity when the rounded value reaches \<open>2\<^sup>1\<^sup>0\<^sup>2\<^sup>4\<close>.
\<close>

datatype float64 = Finite rat | PosInf | NegInf | NaN

definition pow2 :: "int \<Rightarrow> rat" where
  "pow2 e = (if 0 \<le> e then 2 ^ nat e else 1 / 2 ^ nat (- e))"

definition ilog2 :: "rat \<Rightarrow> int" where
  "ilog2 x =
     (case quotient_of x of (a, b) \<Rightarrow>
        (let e = bitlen a - bitlen b in if pow2 e \<le> x then e else e - 1))"

definition roundEven :: "rat \<Rightarrow> int" where
  "roundEven y =
     (let f = \<lfloor>y\<rfloor>; d = y - of_int f
      in if d < 1 / 2 then f else if 1 / 2 < d then f + 1 else if even f then f else f + 1)"

definition toFloat64 :: "rat \<Rightarrow> float64" where
  "toFloat64 x =
     (if x = 0 then Finite 0
      else
        (let q = max (ilog2 \<bar>x\<bar> - 52) (- 1074);
             m = roundEven (\<bar>x\<bar> / pow2 q)
         in if 972 \<le> q \<or> (q = 971 \<and> 2 ^ 53 \<le> m) then (if 0 < x then PosInf else NegInf)
            else Finite (if 0 < x then of_int m * pow2 q else - (of_int m * pow2 q))))"

text \<open>A rational that is a value of the format: rounding leaves it as it is.\<close>

definition representable :: "rat \<Rightarrow> bool" where
  "representable x = (toFloat64 x = Finite x)"

fun mulFloat64 :: "float64 \<Rightarrow> float64 \<Rightarrow> float64" where
  "mulFloat64 (Finite a) (Finite b) = toFloat64 (a * b)"
| "mulFloat64 NaN y = NaN"
| "mulFloat64 x NaN = NaN"
| "mulFloat64 (Finite a) PosInf = (if a = 0 then NaN else if 0 < a then PosInf else NegInf)"
| "mulFloat64 (Finite a) NegInf = (if a = 0 then NaN else if 0 < a then NegInf else PosInf)"
| "mulFloat64 PosInf (Finite b) = (if b = 0 then NaN else if 0 < b then PosInf else NegInf)"
| "mulFloat64 NegInf (Finite b) = (if b = 0 then NaN else if 0 < b then NegInf else PosInf)"
| "mulFloat64 PosInf PosInf = PosInf"
| "mulFloat64 NegInf NegInf = PosInf"
| "mulFloat64 PosInf NegInf = NegInf"
| "mulFloat64 NegInf PosInf = NegInf"

text \<open>
  The conversion \<^verbatim>\<open>time.Duration(f)\<close> of a \<^verbatim>\<open>float64\<close> to a 64-bit integer discards the fraction.
  For a value that no 64-bit integer represents (too large, infinite, not a number) the
  language leaves the result to the implementation: it is the parameter \<open>outOfRange\<close>.
\<close>

definition towardZero :: "rat \<Rightarrow> int" where
  "towardZero r = (if 0 \<le> r then \<lfloor>r\<rfloor> else \<lceil>r\<rceil>)"

definition toInt64 :: "(float64 \<Rightarrow> int) \<Rightarrow> float64 \<Rightarrow> int" where
  "toInt64 outOfRange f =
     (case f of
        Finite r \<Rightarrow>
          if - (2 ^ 63) \<le> towardZero r \<and> towardZero r < 2 ^ 63 then towardZero r else outOfRange f
      | _ \<Rightarrow> outOfRange f)"

text \<open>
  One implementation: on amd64 the conversion is the instruction \<^verbatim>\<open>CVTTSD2SQ\<close>, whose result for
  every operand out of range is the smallest 64-bit integer.
\<close>

definition convertAMD64 :: "float64 \<Rightarrow> int" where
  "convertAMD64 f = - (2 ^ 63)"

record RetryConfig =
  MaxRetries :: int
  BaseDelay :: int
  MaxDelay :: int
  BackoffFactor :: float64

text \<open>\<^verbatim>\<open>pow\<close>: the loop multiplies \<open>result\<close> by \<open>base\<close>, \<open>n\<close> times for the exponent \<open>n\<close> (not at all for \<open>n \<le> 0\<close>).\<close>

fun powLoop :: "float64 \<Rightarrow> nat \<Rightarrow> float64 \<Rightarrow> float64" where
  "powLoop base 0 result = result"
| "powLoop base (Suc n) result = powLoop base n (mulFloat64 result base)"

definition pow :: "float64 \<Rightarrow> int \<Rightarrow> float64" where
  "pow base n = powLoop base (nat n) (Finite 1)"

text \<open>The delay computed at the head of the retry loop for \<open>attempt > 0\<close>, in nanoseconds.\<close>

definition backoffDelay :: "(float64 \<Rightarrow> int) \<Rightarrow> RetryConfig \<Rightarrow> int \<Rightarrow> int" where
  "backoffDelay outOfRange retryConfig attempt =
     (let delay = toInt64 outOfRange
                    (mulFloat64 (toFloat64 (of_int (BaseDelay retryConfig)))
                       (pow (BackoffFactor retryConfig) (attempt - 1)))
      in if delay > MaxDelay retryConfig then MaxDelay retryConfig else delay)"

definition DefaultRetryConfig :: RetryConfig where
  "DefaultRetryConfig =
     \<lparr>MaxRetries = 3, BaseDelay = 2 * 1000000000, MaxDelay = 30 * 1000000000,
      BackoffFactor = Finite 2\<rparr>"

section \<open>The retry-driven chat orchestrators\<close>

text \<open>
  What a call of \<^verbatim>\<open>ChatWithRetry\<close> meets outside the program is the environment record: the
  outcome of the network call of each attempt (\<open>Inl\<close> the text of the error, \<open>Inr\<close> the text of
  the response), the validity check, the target \<^verbatim>\<open>request.T\<close> (\<open>None\<close> for \<^verbatim>\<open>nil\<close>, else the
  decoding \<^verbatim>\<open>json.Unmarshal\<close> does into it: \<open>Inl\<close> the error's text, \<open>Inr\<close> the decoded value) and
  the implementation's conversion of out-of-range floats. The function returns the pair of
  \<^verbatim>\<open>ChatResponse\<close> and error (\<open>None\<close> for \<^verbatim>\<open>nil\<close>) and the trace of its sleeps and network calls.
  The attempt counter and the retry budget are integers without a bound here; the program's
  64-bit counter behaves the same for every budget below \<open>2\<^sup>6\<^sup>3 - 1\<close>.
\<close>

record 'a ChatResponse =
  Message :: string
  Data :: "'a option"

record 'a chatEnv =
  invoke :: "int \<Rightarrow> string + string"
  validity :: "string \<Rightarrow> bool"
  target :: "(string \<Rightarrow> string + 'a) option"
  outOfRange :: "float64 \<Rightarrow> int"

datatype event = Sleep int | Call int

definition emptyResponse :: "'a ChatResponse" where
  "emptyResponse = \<lparr>Message = [], Data = None\<rparr>"

definition preview :: "string \<Rightarrow> string" where
  "preview s = (if int (length s) > 200 then take 200 s @ ''...'' else s)"

definition attemptHead :: "'a chatEnv \<Rightarrow> RetryConfig \<Rightarrow> int \<Rightarrow> event list \<Rightarrow> event list" where
  "attemptHead env retryConfig attempt trace =
     (if attempt > 0 then trace @ [Sleep (backoffDelay (outOfRange env) retryConfig attempt)] else trace)
     @ [Call attempt]"

definition google_classifyError :: "string \<Rightarrow> int \<Rightarrow> string \<Rightarrow> LLMError" where
  "google_classifyError errStr attempt operation =
     (if Contains errStr ''connection refused'' \<or> Contains errStr ''no such host''
         \<or> Contains errStr ''network is unreachable'' then
        NewLLMError ErrConnectionFailed ''connection to Google API failed'' operation True attempt (Some errStr)
      else if Contains errStr ''timeout'' \<or> Contains errStr ''context deadline exceeded''
         \<or> Contains errStr ''deadline exceeded'' then
        NewLLMError ErrTimeout ''request timed out'' operation True attempt (Some errStr)
      else if Contains errStr ''authentication'' \<or> Contains errStr ''unauthorized''
         \<or> Contains errStr ''API key'' \<or> Contains errStr ''invalid api key'' then
        NewLLMError ErrInvalidConfig ''authentication failed'' operation False attempt (Some errStr)
      else if Contains errStr ''rate limit'' \<or> Contains errStr ''quota exceeded''
         \<or> Contains errStr ''resource exhausted'' then
        NewLLMError ErrRateLimitExceeded ''rate limit exceeded'' operation True attempt (Some errStr)
      else if Contains errStr ''model not found'' \<or> Contains errStr ''invalid model''
         \<or> Contains errStr ''model is not available'' then
        NewLLMError ErrModelNotAvailable ''requested model not available'' operation False attempt (Some errStr)
      else NewLLMError ErrOperationFailed ''operation failed'' operation True attempt (Some errStr))"

definition ollama_classifyError :: "string \<Rightarrow> int \<Rightarrow> string \<Rightarrow> LLMError" where
  "ollama_classifyError errStr attempt operation =
     (if Contains errStr ''connection refused'' \<or> Contains errStr ''no such host''
         \<or> Contains errStr ''network is unreachable'' then
        NewLLMError ErrConnectionFailed ''connection to Ollama service failed'' operation True attempt (Some errStr)
      else if Contains errStr ''timeout'' \<or> Contains errStr ''context deadline exceeded'' then
        NewLLMError ErrTimeout ''request timed out'' operation True attempt (Some errStr)
      else if Contains errStr ''model not found'' \<or> Contains errStr ''model is not available'' then
        NewLLMError ErrModelNotAvailable ''requested model not available'' operation False attempt (Some errStr)
      else NewLLMError ErrOperationFailed ''operation failed'' operation True attempt (Some errStr))"

text \<open>
  The part of an attempt after a non-empty (Google) or any (Ollama) successful response, the
  same code in both clients: \<open>Inr\<close> the response to return, \<open>Inl\<close> the error of the attempt.
\<close>

definition structured :: "'a chatEnv \<Rightarrow> int \<Rightarrow> string \<Rightarrow> LLMError + 'a ChatResponse" where
  "structured env attempt finalResponse =
     (case target env of
        None \<Rightarrow> Inr \<lparr>Message = finalResponse, Data = None\<rparr>
      | Some unmarshal \<Rightarrow>
          (let jsonStr = extractJSON (validity env) finalResponse in
           if jsonStr = [] then
             Inl (NewLLMError ErrJSONParseFailed ''no valid JSON found in response'' ''chat'' True attempt
                    (Some (''extractJSON failed - response preview: '' @ preview finalResponse)))
           else
             (case unmarshal jsonStr of
                Inl err \<Rightarrow>
                  Inl (NewLLMError ErrJSONParseFailed ''failed to parse JSON response'' ''chat'' True attempt
                         (Some (''unmarshal error: '' @ err @ '' - extracted JSON preview: '' @ preview jsonStr)))
              | Inr v \<Rightarrow> Inr \<lparr>Message = finalResponse, Data = Some v\<rparr>)))"

function google_chatLoop ::
  "'a chatEnv \<Rightarrow> RetryConfig \<Rightarrow> int \<Rightarrow> LLMError option \<Rightarrow> event list
     \<Rightarrow> ('a ChatResponse \<times> LLMError option) \<times> event list" where
  "google_chatLoop env retryConfig attempt lastErr trace =
     (if attempt \<le> MaxRetries retryConfig then
        (let trace' = attemptHead env retryConfig attempt trace in
         case invoke env attempt of
           Inl errStr \<Rightarrow>
             (let err = google_classifyError errStr attempt ''chat'' in
              if attempt < MaxRetries retryConfig \<and> IsRetryable err then
                google_chatLoop env retryConfig (attempt + 1) (Some err) trace'
              else ((emptyResponse, Some err), trace'))
         | Inr finalResponse \<Rightarrow>
             if finalResponse = [] then
               (let err = NewLLMError ErrInvalidResponse ''empty response from Google API'' ''chat'' True
                            attempt None in
                if attempt < MaxRetries retryConfig then
                  google_chatLoop env retryConfig (attempt + 1) (Some err) trace'
                else ((emptyResponse, Some err), trace'))
             else
               (case structured env attempt finalResponse of
                  Inl err \<Rightarrow>
                    if attempt < MaxRetries retryConfig then
                      google_chatLoop env retryConfig (attempt + 1) (Some err) trace'
                    else ((emptyResponse, Some err), trace')
                | Inr response \<Rightarrow> ((response, None), trace')))
      else ((emptyResponse, lastErr), trace))"
  by pat_completeness auto
termination
  by (relation "measure (\<lambda>(env, retryConfig, attempt, lastErr, trace). nat (MaxRetries retryConfig + 1 - attempt))")
     auto

declare google_chatLoop.simps [simp del]

definition google_ChatWithRetry ::
  "'a chatEnv \<Rightarrow> RetryConfig \<Rightarrow> ('a ChatResponse \<times> LLMError option) \<times> event list" where
  "google_ChatWithRetry env retryConfig = google_chatLoop env retryConfig 0 None []"

function ollama_chatLoop ::
  "'a chatEnv \<Rightarrow> RetryConfig \<Rightarrow> int \<Rightarrow> LLMError option \<Rightarrow> event list
     \<Rightarrow> ('a ChatResponse \<times> LLMError option) \<times> event list" where
  "ollama_chatLoop env retryConfig attempt lastErr trace =
     (if attempt \<le> MaxRetries retryConfig then
        (let trace' = attemptHead env retryConfig attempt trace in
         case invoke env attempt of
           Inl errStr \<Rightarrow>
             (let err = ollama_classifyError errStr attempt ''chat'' in
              if attempt < MaxRetries retryConfig \<and> IsRetryable err then
                ollama_chatLoop env retryConfig (attempt + 1) (Some err) trace'
              else ((emptyResponse, Some err), trace'))
         | Inr finalResponse \<Rightarrow>
             (case structured env attempt finalResponse of
                Inl err \<Rightarrow>
                  if attempt < MaxRetries retryConfig then
                    ollama_chatLoop env retryConfig (attempt + 1) (Some err) trace'
                  else ((emptyResponse, Some err), trace')
              | Inr response \<Rightarrow> ((response, None), trace')))
      else ((emptyResponse, lastErr), trace))"
  by pat_completeness auto
termination
  by (relation "measure (\<lambda>(env, retryConfig, attempt, lastErr, trace). nat (MaxRetries retryConfig + 1 - attempt))")
     auto

declare ollama_chatLoop.simps [simp del]

definition ollama_ChatWithRetry ::
  "'a chatEnv \<Rightarrow> RetryConfig \<Rightarrow> ('a ChatResponse \<times> LLMError option) \<times> event list" where
  "ollama_ChatWithRetry env retryConfig = ollama_chatLoop env retryConfig 0 None []"

section \<open>The provider factory\<close>

text \<open>
  \<^verbatim>\<open>LLMFactory\<close> with its registry of constructors, its configuration and its two caches. A
  provider instance is a value of the type \<open>'p\<close>; a configuration map holds strings and
  integers. The methods run under the factory's mutex, one at a time: each is a function from
  the state to a result and the state after it. The field \<open>constructed\<close> is not a field of the
  program: it records, in order, every invocation of a registered constructor with the
  configuration map passed to it.
\<close>

datatype configValue = StringValue string | IntValue int

type_synonym configMap = "string \<rightharpoonup> configValue"

record Model =
  Name :: string

record ProviderConfig =
  Host :: string
  APIKey :: string
  DefaultModel :: string
  Timeout :: int
  RetryAttempts :: int
  RateLimit :: int
  ExtraSettings :: "string \<rightharpoonup> string"

record FactoryConfig =
  DefaultProvider :: string
  Providers :: "string \<rightharpoonup> ProviderConfig"
  ModelPreferences :: "string \<rightharpoonup> string"
  FallbackProviders :: "string list"

record 'p LLMFactory =
  registry :: "string \<rightharpoonup> (configMap \<Rightarrow> LLMError + 'p)"
  config :: FactoryConfig
  providerCache :: "string \<rightharpoonup> 'p"
  modelCache :: "string \<rightharpoonup> Model list"
  constructed :: "(string \<times> configMap) list"

text \<open>\<^verbatim>\<open>fmt.Errorf("failed to create provider %s: %w", providerName, err)\<close>\<close>

datatype createError = FailedToCreate string LLMError

definition NewLLMFactory :: "'p LLMFactory" where
  "NewLLMFactory =
     \<lparr>registry = Map.empty,
      config = \<lparr>DefaultProvider = [], Providers = Map.empty, ModelPreferences = Map.empty,
                FallbackProviders = []\<rparr>,
      providerCache = Map.empty, modelCache = Map.empty, constructed = []\<rparr>"

definition RegisterProvider ::
  "'p LLMFactory \<Rightarrow> string \<Rightarrow> (configMap \<Rightarrow> LLMError + 'p) \<Rightarrow> 'p LLMFactory" where
  "RegisterProvider f name constructor = f\<lparr>registry := (registry f)(name \<mapsto> constructor)\<rparr>"

text \<open>\<^verbatim>\<open>ProviderRegistry.Create\<close>\<close>

definition Create ::
  "(string \<rightharpoonup> (configMap \<Rightarrow> LLMError + 'p)) \<Rightarrow> string \<Rightarrow> configMap \<Rightarrow> LLMError + 'p" where
  "Create providers name cfg =
     (case providers name of
        None \<Rightarrow>
          Inl (NewLLMError ErrInvalidConfig (''provider not found: '' @ name) ''provider_creation''
                 False 0 None)
      | Some constructor \<Rightarrow> constructor cfg)"

definition createProviderUnsafe ::
  "'p LLMFactory \<Rightarrow> string \<Rightarrow> configMap \<Rightarrow> (createError + 'p) \<times> 'p LLMFactory" where
  "createProviderUnsafe f providerName cfg =
     (case providerCache f providerName of
        Some provider \<Rightarrow> (Inr provider, f)
      | None \<Rightarrow>
          (let f' = (if registry f providerName = None then f
                     else f\<lparr>constructed := constructed f @ [(providerName, cfg)]\<rparr>)
           in case Create (registry f) providerName cfg of
                Inl err \<Rightarrow> (Inl (FailedToCreate providerName err), f')
              | Inr provider \<Rightarrow>
                  (Inr provider, f'\<lparr>providerCache := (providerCache f')(providerName \<mapsto> provider)\<rparr>)))"

definition CreateProvider ::
  "'p LLMFactory \<Rightarrow> string \<Rightarrow> configMap \<Rightarrow> (createError + 'p) \<times> 'p LLMFactory" where
  "CreateProvider f providerName cfg = createProviderUnsafe f providerName cfg"

definition LoadConfig :: "'p LLMFactory \<Rightarrow> FactoryConfig \<Rightarrow> LLMError option \<times> 'p LLMFactory" where
  "LoadConfig f cfg =
     (if DefaultProvider cfg = [] then
        (Some (NewLLMError ErrInvalidConfig ''default provider must be specified'' ''load_config''
                 False 0 None), f)
      else if dom (Providers cfg) = {} then
        (Some (NewLLMError ErrInvalidConfig ''at least one provider must be configured'' ''load_config''
                 False 0 None), f)
      else if Providers cfg (DefaultProvider cfg) = None then
        (Some (NewLLMError ErrInvalidConfig
                 (''default provider '' @ DefaultProvider cfg @ '' not found in provider configurations'')
                 ''load_config'' False 0 None), f)
      else (None, f\<lparr>config := cfg, providerCache := Map.empty, modelCache := Map.empty\<rparr>))"

definition ClearModelCache :: "'p LLMFactory \<Rightarrow> 'p LLMFactory" where
  "ClearModelCache f = f\<lparr>modelCache := Map.empty\<rparr>"

definition ClearProviderCache :: "'p LLMFactory \<Rightarrow> 'p LLMFactory" where
  "ClearProviderCache f = f\<lparr>providerCache := Map.empty\<rparr>"

text \<open>
  A factory for the examples: one registered constructor, which needs an API key and returns
  the key's length as the provider, and an instance cached under the constructor's name.
\<close>

definition exampleFactory :: "nat LLMFactory" where
  "exampleFactory =
     \<lparr>registry = [''google'' \<mapsto> (\<lambda>cfg. case cfg ''api_key'' of
                                           Some (StringValue k) \<Rightarrow> Inr (length k)
                                         | _ \<Rightarrow> Inl (NewLLMError ErrInvalidConfig ''API key is required for Google provider''
                                                       ''provider_creation'' False 0 None))],
      config = \<lparr>DefaultProvider = ''google'', Providers = Map.empty, ModelPreferences = Map.empty,
                FallbackProviders = []\<rparr>,
      providerCache = [''google'' \<mapsto> 3], modelCache = Map.empty, constructed = []\<rparr>"

text \<open>A configuration that \<^verbatim>\<open>LoadConfig\<close> accepts: its default provider is configured.\<close>

definition exampleConfig :: FactoryConfig where
  "exampleConfig =
     \<lparr>DefaultProvider = ''google'',
      Providers = [''google'' \<mapsto>
        \<lparr>Host = [], APIKey = ''another-key'', DefaultModel = ''gemini-2.0-flash'', Timeout = 60,
         RetryAttempts = 3, RateLimit = 0, ExtraSettings = Map.empty\<rparr>],
      ModelPreferences = Map.empty, FallbackProviders = []\<rparr>"

section \<open>Idempotence of the repair pass\<close>

lemma fixLoop_append:
  "fixLoop st (xs @ ys) = fixLoop st xs @ fixLoop (fixEnd st xs) ys"
  by (induction xs arbitrary: st) simp_all

lemma fixStep_cases:
  "fixStep (i, e) c =
     (if c = bslash then ([c], (i, True))
      else if e then ([c], (i, False))
      else if c = dquote then ([c], (\<not> i, False))
      else if c = newline \<and> i then ([bslash, CHR ''n''], (i, False))
      else if c = creturn \<and> i then ([bslash, CHR ''r''], (i, False))
      else if c = tab \<and> i then ([bslash, CHR ''t''], (i, False))
      else ([c], (i, False)))"
  by (simp add: fixStep_def)

lemma fixStep_out_stable:
  "fixLoop st (fst (fixStep st c)) = fst (fixStep st c)"
proof (cases st)
  case (Pair i e)
  show ?thesis unfolding Pair
    by (simp add: fixStep_cases)
qed

lemma fixStep_end_stable:
  "fixEnd st (fst (fixStep st c)) = snd (fixStep st c)"
proof (cases st)
  case (Pair i e)
  show ?thesis unfolding Pair
    by (simp add: fixStep_cases)
qed

lemma fixLoop_idem:
  "fixLoop st (fixLoop st s) = fixLoop st s"
proof (induction s arbitrary: st)
  case Nil
  show ?case by simp
next
  case (Cons c cs)
  have "fixLoop st (fixLoop st (c # cs))
        = fixLoop st (fst (fixStep st c)) @ fixLoop (fixEnd st (fst (fixStep st c))) (fixLoop (snd (fixStep st c)) cs)"
    by (simp only: fixLoop.simps fixLoop_append)
  also have "\<dots> = fst (fixStep st c) @ fixLoop (snd (fixStep st c)) (fixLoop (snd (fixStep st c)) cs)"
    by (simp only: fixStep_out_stable fixStep_end_stable)
  also have "\<dots> = fst (fixStep st c) @ fixLoop (snd (fixStep st c)) cs"
    by (simp only: Cons.IH)
  finally show ?case by (simp only: fixLoop.simps)
qed

text \<open>
  C4. The repair pass is idempotent: repairing repaired text changes nothing, for every input.
  An escape sequence written by the first pass is read back as backslash plus an escaped letter,
  which leaves the scanner in the state the first pass was in after the control character.
\<close>

theorem repair_idempotent:
  "repairCommonJSONIssues (repairCommonJSONIssues s) = repairCommonJSONIssues s"
  by (simp add: repairCommonJSONIssues_def fixUnescapedNewlines_def fixLoop_idem)

section \<open>The extraction pipeline: validity and substrings\<close>


lemma ejbLoop_result:
  assumes "P []" and "\<And>lo hi. valid (slice response lo hi) \<Longrightarrow> P (slice response lo hi)"
  shows "P (ejbLoop valid response oc cc i start count st cs)"
  by (induction cs arbitrary: i start count st) (simp_all add: assms)

lemma ejbLoop_valid:
  "ejbLoop valid response oc cc i start count st cs \<noteq> [] \<Longrightarrow>
   valid (ejbLoop valid response oc cc i start count st cs)"
  by (rule ejbLoop_result [where P = "\<lambda>r. r \<noteq> [] \<longrightarrow> valid r", rule_format]) simp_all

lemma extractJSONBoundaries_valid:
  "extractJSONBoundaries valid response oc cc \<noteq> [] \<Longrightarrow>
   valid (extractJSONBoundaries valid response oc cc)"
  unfolding extractJSONBoundaries_def by (rule ejbLoop_valid)

lemma extractFromMarkdown_valid:
  "extractFromMarkdown valid response marker \<noteq> [] \<Longrightarrow>
   valid (extractFromMarkdown valid response marker)"
  by (auto simp: extractFromMarkdown_def Let_def split: option.splits if_splits)

lemma extractWithAggressiveCleanup_valid:
  "extractWithAggressiveCleanup valid response \<noteq> [] \<Longrightarrow>
   valid (extractWithAggressiveCleanup valid response)"
  by (simp add: extractWithAggressiveCleanup_def Let_def extractJSONBoundaries_valid split: if_splits)

lemma extractJSON_result:
  assumes "P []"
    and "valid (TrimSpace s) \<Longrightarrow> P (TrimSpace s)"
    and "\<not> valid (TrimSpace s) \<Longrightarrow> valid (repairCommonJSONIssues (TrimSpace s)) \<Longrightarrow>
           P (repairCommonJSONIssues (TrimSpace s))"
    and "\<And>marker. P (extractFromMarkdown valid s marker)"
    and "P (extractWithBraceCounting valid s)"
    and "P (extractWithAggressiveCleanup valid s)"
  shows "P (extractJSON valid s)"
  unfolding extractJSON_def Let_def using assms by simp

text \<open>
  C5. Whatever the validity check is, a non-empty result of the extraction pipeline passes it:
  every strategy returns its candidate only after the check, or returns the empty string.
\<close>

theorem extractJSON_validated:
  "extractJSON valid s \<noteq> [] \<Longrightarrow> valid (extractJSON valid s)"
proof (rule extractJSON_result [where P = "\<lambda>r. r \<noteq> [] \<longrightarrow> valid r", rule_format])
  show "extractJSON valid s \<noteq> [] \<Longrightarrow> extractJSON valid s \<noteq> []" .
qed (simp_all add: extractFromMarkdown_valid extractWithAggressiveCleanup_valid
       extractJSONBoundaries_valid extractWithBraceCounting_def)

lemma suffix_trimPrefixes: "suffix (trimPrefixes ws s) s"
proof (induction ws s rule: trimPrefixes.induct)
  case (1 ws s)
  show ?case
  proof (cases "find (\<lambda>w. w \<noteq> [] \<and> prefix w s) ws")
    case None
    then show ?thesis by (simp add: trimPrefixes.simps)
  next
    case (Some w)
    then have "suffix (trimPrefixes ws (drop (length w) s)) (drop (length w) s)"
      using "1.IH" by simp
    moreover have "suffix (drop (length w) s) s"
      by (rule suffix_drop)
    ultimately have "suffix (trimPrefixes ws (drop (length w) s)) s"
      by (rule suffix_order.trans)
    then show ?thesis using Some by (simp add: trimPrefixes.simps)
  qed
qed

lemma sublist_TrimSpace: "sublist (TrimSpace s) s"
proof -
  let ?t = "trimPrefixes spaceRunes s"
  have "suffix (trimPrefixes (map rev spaceRunes) (rev ?t)) (rev ?t)"
    by (rule suffix_trimPrefixes)
  then have "prefix (TrimSpace s) ?t"
    by (simp add: TrimSpace_def suffix_to_prefix)
  then have "sublist (TrimSpace s) ?t" by (rule prefix_imp_sublist)
  moreover have "sublist ?t s"
    using suffix_trimPrefixes by (rule suffix_imp_sublist)
  ultimately show ?thesis by (rule sublist_order.order_trans)
qed

lemma sublist_slice: "sublist (slice s lo hi) s"
  unfolding slice_def
  by (rule sublist_order.order_trans [OF sublist_take sublist_drop])

lemma ejbLoop_sublist:
  "sublist (ejbLoop valid response oc cc i start count st cs) response"
  by (rule ejbLoop_result [where P = "\<lambda>r. sublist r response"]) (simp_all add: sublist_slice)

lemma extractJSONBoundaries_sublist:
  "sublist (extractJSONBoundaries valid response oc cc) response"
  unfolding extractJSONBoundaries_def by (rule ejbLoop_sublist)

lemma extractFromMarkdown_sublist:
  "sublist (extractFromMarkdown valid response marker) response"
proof -
  have "sublist (TrimSpace (take n (drop k response))) response" for n k
    by (rule sublist_order.order_trans [OF sublist_TrimSpace
          sublist_order.order_trans [OF sublist_take sublist_drop]])
  then show ?thesis
    by (auto simp: extractFromMarkdown_def Let_def split: option.splits)
qed

lemma removePrefix_sublist: "sublist (removePrefix ps s) s"
proof (induction ps)
  case Nil
  show ?case by simp
next
  case (Cons p ps)
  have "sublist (TrimSpace (drop (length p) s)) s"
    by (rule sublist_order.order_trans [OF sublist_TrimSpace sublist_drop])
  with Cons show ?case by simp
qed

lemma removeSuffix_sublist: "sublist (removeSuffix xs s) s"
proof (induction xs)
  case Nil
  show ?case by simp
next
  case (Cons x xs)
  have "sublist (TrimSpace (take (length s - length x) s)) s"
    by (rule sublist_order.order_trans [OF sublist_TrimSpace sublist_take])
  with Cons show ?case by simp
qed

lemma extractWithAggressiveCleanup_sublist:
  "sublist (extractWithAggressiveCleanup valid response) response"
proof -
  have c: "sublist (cleanupNoise response) response"
    unfolding cleanupNoise_def
    by (rule sublist_order.order_trans [OF removeSuffix_sublist removePrefix_sublist])
  have "sublist (extractJSONBoundaries valid (cleanupNoise response) (CHR ''{'') (CHR ''}'')) response"
    by (rule sublist_order.order_trans [OF extractJSONBoundaries_sublist c])
  with c show ?thesis
    by (simp add: extractWithAggressiveCleanup_def Let_def)
qed

text \<open>
  C7, as amended. A non-empty result of the extraction pipeline is a contiguous substring of
  the raw response, or it is the output of the repair pass on the trimmed response, returned by
  the second strategy when the trimmed response itself is not valid.
\<close>

theorem extractJSON_substring_or_repaired:
  "extractJSON valid s \<noteq> [] \<Longrightarrow>
     sublist (extractJSON valid s) s \<or>
     (\<not> valid (TrimSpace s) \<and> extractJSON valid s = repairCommonJSONIssues (TrimSpace s))"
  by (rule extractJSON_result [where P = "\<lambda>r. sublist r s \<or> (\<not> valid (TrimSpace s) \<and> r = repairCommonJSONIssues (TrimSpace s))"])
     (simp_all add: sublist_TrimSpace extractFromMarkdown_sublist extractWithAggressiveCleanup_sublist
        extractJSONBoundaries_sublist extractWithBraceCounting_def)


theorem extractJSON_validated_witness:
  \<open>extractJSON isValidJSON ''Here's the JSON: {"x": [1,2,{"y":3}]} Hope that helps!'' \<noteq> [] \<and>
   isValidJSON (extractJSON isValidJSON ''Here's the JSON: {"x": [1,2,{"y":3}]} Hope that helps!'')\<close>
proof -
  have h: \<open>extractJSON isValidJSON ''Here's the JSON: {"x": [1,2,{"y":3}]} Hope that helps!'' \<noteq> []\<close>
    by code_simp
  from h extractJSON_validated [OF h] show ?thesis by (rule conjI)
qed

text \<open>
  C7 as stated fails: a response with a raw newline inside a string is returned repaired, and
  the repaired text, which holds a backslash, does not occur in the response.
\<close>

lemma repaired_response_eval:
  \<open>extractJSON isValidJSON (''{"a":"x'' @ [newline] @ ''y"}'') = ''{"a":"x'' @ [bslash] @ ''ny"}''\<close>
  by code_simp

theorem extractJSON_not_substring_counterexample:
  \<open>extractJSON isValidJSON (''{"a":"x'' @ [newline] @ ''y"}'') \<noteq> [] \<and>
   \<not> sublist (extractJSON isValidJSON (''{"a":"x'' @ [newline] @ ''y"}'')) (''{"a":"x'' @ [newline] @ ''y"}'')\<close>
proof -
  have "bslash \<in> set (''{'' @ [dquote] @ ''a'' @ [dquote] @ '':'' @ [dquote] @ ''x'' @ [bslash] @ ''ny'' @ [dquote] @ ''}'')"
    by simp
  moreover have "bslash \<notin> set (''{'' @ [dquote] @ ''a'' @ [dquote] @ '':'' @ [dquote] @ ''x'' @ [newline] @ ''y'' @ [dquote] @ ''}'')"
    by simp
  ultimately have "\<not> sublist (''{'' @ [dquote] @ ''a'' @ [dquote] @ '':'' @ [dquote] @ ''x'' @ [bslash] @ ''ny'' @ [dquote] @ ''}'')
      (''{'' @ [dquote] @ ''a'' @ [dquote] @ '':'' @ [dquote] @ ''x'' @ [newline] @ ''y'' @ [dquote] @ ''}'')"
    using set_mono_sublist by blast
  then show ?thesis
    unfolding repaired_response_eval by simp
qed

theorem extractJSON_substring_or_repaired_witness:
  \<open>extractJSON isValidJSON (''{"a":"x'' @ [newline] @ ''y"}'') \<noteq> [] \<and>
   (sublist (extractJSON isValidJSON (''{"a":"x'' @ [newline] @ ''y"}'')) (''{"a":"x'' @ [newline] @ ''y"}'') \<or>
    \<not> isValidJSON (TrimSpace (''{"a":"x'' @ [newline] @ ''y"}'')) \<and>
    extractJSON isValidJSON (''{"a":"x'' @ [newline] @ ''y"}'')
      = repairCommonJSONIssues (TrimSpace (''{"a":"x'' @ [newline] @ ''y"}'')))\<close>
proof -
  have h: \<open>extractJSON isValidJSON (''{"a":"x'' @ [newline] @ ''y"}'') \<noteq> []\<close>
    unfolding repaired_response_eval by simp
  from h extractJSON_substring_or_repaired [OF h] show ?thesis by (rule conjI)
qed

section \<open>The two scanners\<close>

text \<open>The scanner of the balanced-span extractor follows the rules of the escape-aware scanner.\<close>

lemma ejbScan_rules:
  "ejbScan (inString, False) bslash = (inString, True)"
  "ejbScan (inString, True) c = (inString, False)"
  "ejbScan (inString, False) dquote = (\<not> inString, False)"
  "c \<noteq> bslash \<Longrightarrow> c \<noteq> dquote \<Longrightarrow> ejbScan (inString, False) c = (inString, False)"
  by (simp_all add: ejbScan_def)

text \<open>
  The scanner of the repair pass clears \<open>escaped\<close> only on a character other than a backslash,
  so an escaped backslash leaves it set, and the character after it counts as escaped too.
\<close>

lemma fixStep_escaped_backslash:
  "snd (fixStep (inString, True) bslash) = (inString, True)"
  by (simp add: fixStep_def)

text \<open>
  C3. On the valid JSON text \<^verbatim>\<open>{"a":"b\\"}\<close> the two scanners disagree from the second backslash
  on: the repair pass takes the closing quote for an escaped one and ends inside the string,
  the balanced-span extractor ends outside it.
\<close>

theorem scanners_disagree:
  \<open>isValidJSON (''{"a":"b'' @ [bslash, bslash] @ ''"}'') \<and>
   fixStates (False, False) (''{"a":"b'' @ [bslash, bslash] @ ''"}'')
     \<noteq> ejbStates (False, False) (''{"a":"b'' @ [bslash, bslash] @ ''"}'') \<and>
   fixEnd (False, False) (''{"a":"b'' @ [bslash, bslash] @ ''"}'') = (True, False) \<and>
   ejbEnd (False, False) (''{"a":"b'' @ [bslash, bslash] @ ''"}'') = (False, False)\<close>
  by code_simp

text \<open>
  C8. In the repair pass the escape of a backslash outlives the next character: after two
  backslashes the following quote is still taken as escaped and does not toggle the in-string
  state. On \<^verbatim>\<open>{"a":"\\","b":"c\<close>, newline, \<^verbatim>\<open>d"}\<close> the pass therefore believes the newline to be
  outside a string and leaves it, and the pipeline finds no JSON in a text that one replaced
  newline makes valid.
\<close>

theorem repair_escape_outlives_next_character:
  \<open>fixStates (False, False) [bslash, bslash, dquote] = [(False, True), (False, True), (False, False)] \<and>
   ejbStates (False, False) [bslash, bslash, dquote] = [(False, True), (False, False), (True, False)] \<and>
   fixUnescapedNewlines (''{"a":"'' @ [bslash, bslash] @ ''","b":"c'' @ [newline] @ ''d"}'')
     = ''{"a":"'' @ [bslash, bslash] @ ''","b":"c'' @ [newline] @ ''d"}'' \<and>
   isValidJSON (''{"a":"'' @ [bslash, bslash] @ ''","b":"c'' @ [bslash] @ ''nd"}'') \<and>
   extractJSON isValidJSON (''{"a":"'' @ [bslash, bslash] @ ''","b":"c'' @ [newline] @ ''d"}'') = []\<close>
  by code_simp

section \<open>The balanced-span extractor and arrays\<close>

text \<open>
  What the extractor does find, for the pair of delimiters it is given: when no delimiter,
  quote or backslash stands before the first opener, and the span from that opener to the
  closer that brings the depth back to zero is valid, it returns this span.
\<close>

lemma ejbLoop_open_span:
  assumes "start \<noteq> - 1"
  shows "spanEnd oc cc count st cs = Some k \<Longrightarrow>
         valid (slice response start (i + int k + 1)) \<Longrightarrow>
         ejbLoop valid response oc cc i start count st cs = slice response start (i + int k + 1)"
proof (induction cs arbitrary: i count st k)
  case Nil
  then show ?case by simp
next
  case (Cons c cs)
  let ?st = "ejbScan st c"
  have step: "ejbLoop valid response oc cc (i + 1) start count' ?st cs = slice response start (i + int k + 1)"
    if "map_option Suc (spanEnd oc cc count' ?st cs) = Some k" for count'
  proof -
    from that obtain k' where s: "spanEnd oc cc count' ?st cs = Some k'" and k: "k = Suc k'"
      by auto
    have "i + int k + 1 = (i + 1) + int k' + 1" using k by simp
    with Cons.IH [OF s, of "i + 1"] Cons.prems(2) show ?thesis by simp
  qed
  consider
      (a) "c = bslash \<and> \<not> snd st"
    | (b) "\<not> (c = bslash \<and> \<not> snd st)" "fst ?st"
    | (c) "\<not> (c = bslash \<and> \<not> snd st)" "\<not> fst ?st" "c = oc"
    | (d) "\<not> (c = bslash \<and> \<not> snd st)" "\<not> fst ?st" "c \<noteq> oc" "c = cc" "count - 1 = 0"
    | (e) "\<not> (c = bslash \<and> \<not> snd st)" "\<not> fst ?st" "c \<noteq> oc" "c = cc" "count - 1 \<noteq> 0"
    | (f) "\<not> (c = bslash \<and> \<not> snd st)" "\<not> fst ?st" "c \<noteq> oc" "c \<noteq> cc"
    by blast
  then show ?case
  proof cases
    case a
    then have eqs: "spanEnd oc cc count st (c # cs) = map_option Suc (spanEnd oc cc count ?st cs)"
      "ejbLoop valid response oc cc i start count st (c # cs)
             = ejbLoop valid response oc cc (i + 1) start count ?st cs"
      by simp_all
    from Cons.prems(1) step show ?thesis unfolding eqs by blast
  next
    case b
    then have eqs: "spanEnd oc cc count st (c # cs) = map_option Suc (spanEnd oc cc count ?st cs)"
      "ejbLoop valid response oc cc i start count st (c # cs)
             = ejbLoop valid response oc cc (i + 1) start count ?st cs"
      by auto
    from Cons.prems(1) step show ?thesis unfolding eqs by blast
  next
    case c
    then have eqs: "spanEnd oc cc count st (c # cs) = map_option Suc (spanEnd oc cc (count + 1) ?st cs)"
      "ejbLoop valid response oc cc i start count st (c # cs)
             = ejbLoop valid response oc cc (i + 1) start (count + 1) ?st cs"
      using assms by auto
    from Cons.prems(1) step show ?thesis unfolding eqs by blast
  next
    case d
    then have k: "spanEnd oc cc count st (c # cs) = Some 0"
      by auto
    from Cons.prems(1) have k0: "k = 0" unfolding k by simp
    with Cons.prems(2) have v: "valid (slice response start (i + 1))" by simp
    from d v assms have "ejbLoop valid response oc cc i start count st (c # cs) = slice response start (i + 1)"
      by auto
    then show ?thesis unfolding k0 by simp
  next
    case e
    then have eqs: "spanEnd oc cc count st (c # cs) = map_option Suc (spanEnd oc cc (count - 1) ?st cs)"
      "ejbLoop valid response oc cc i start count st (c # cs)
             = ejbLoop valid response oc cc (i + 1) start (count - 1) ?st cs"
      by auto
    from Cons.prems(1) step show ?thesis unfolding eqs by blast
  next
    case f
    then have eqs: "spanEnd oc cc count st (c # cs) = map_option Suc (spanEnd oc cc count ?st cs)"
      "ejbLoop valid response oc cc i start count st (c # cs)
             = ejbLoop valid response oc cc (i + 1) start count ?st cs"
      by auto
    from Cons.prems(1) step show ?thesis unfolding eqs by blast
  qed
qed

lemma ejbLoop_skip_prose:
  assumes "\<forall>c \<in> set pre. c \<noteq> oc \<and> c \<noteq> cc \<and> c \<noteq> dquote \<and> c \<noteq> bslash"
  shows "ejbLoop valid response oc cc i (- 1) 0 (False, False) (pre @ rest)
           = ejbLoop valid response oc cc (i + int (length pre)) (- 1) 0 (False, False) rest"
  using assms
proof (induction pre arbitrary: i)
  case Nil
  show ?case by simp
next
  case (Cons c pre)
  then have c: "c \<noteq> oc" "c \<noteq> cc" "c \<noteq> dquote" "c \<noteq> bslash" by simp_all
  have "ejbScan (False, False) c = (False, False)" using c by (simp add: ejbScan_def)
  with c have "ejbLoop valid response oc cc i (- 1) 0 (False, False) ((c # pre) @ rest)
                 = ejbLoop valid response oc cc (i + 1) (- 1) 0 (False, False) (pre @ rest)"
    by simp
  also have "\<dots> = ejbLoop valid response oc cc (i + 1 + int (length pre)) (- 1) 0 (False, False) rest"
    using Cons.prems by (intro Cons.IH) simp
  finally show ?case by (simp add: add.assoc)
qed

lemma extractJSONBoundaries_finds_span:
  assumes "oc \<noteq> bslash" and "oc \<noteq> dquote"
    and "\<forall>c \<in> set pre. c \<noteq> oc \<and> c \<noteq> cc \<and> c \<noteq> dquote \<and> c \<noteq> bslash"
    and "spanEnd oc cc 0 (False, False) (oc # rest) = Some k"
    and "valid (take (Suc k) (oc # rest))"
  shows "extractJSONBoundaries valid (pre @ oc # rest) oc cc = take (Suc k) (oc # rest)"
proof -
  let ?r = "pre @ oc # rest"
  have sc: "ejbScan (False, False) oc = (False, False)"
    using assms(1,2) by (simp add: ejbScan_def)
  from assms(4) obtain k' where k: "k = Suc k'" and s: "spanEnd oc cc 1 (False, False) rest = Some k'"
    using assms(1) by (auto simp: sc)
  have sl: "slice ?r (int (length pre)) (int (length pre) + 1 + int k' + 1) = take (Suc k) (oc # rest)"
    by (simp add: slice_def k nat_add_distrib)
  have "extractJSONBoundaries valid ?r oc cc
          = ejbLoop valid ?r oc cc (int (length pre)) (- 1) 0 (False, False) (oc # rest)"
    unfolding extractJSONBoundaries_def using ejbLoop_skip_prose [OF assms(3), of valid ?r 0 "oc # rest"]
    by simp
  also have "\<dots> = ejbLoop valid ?r oc cc (int (length pre) + 1) (int (length pre)) 1 (False, False) rest"
    using assms(1) by (simp add: sc)
  also have "\<dots> = slice ?r (int (length pre)) (int (length pre) + 1 + int k' + 1)"
  proof (rule ejbLoop_open_span [OF _ s])
    show "int (length pre) \<noteq> - 1" by simp
    show "valid (slice ?r (int (length pre)) (int (length pre) + 1 + int k' + 1))"
      using assms(5) by (simp only: sl)
  qed
  finally show ?thesis by (simp only: sl)
qed


text \<open>
  C6. \<^verbatim>\<open>extractWithBraceCounting\<close> passes braces only, and no caller passes brackets: a valid
  JSON array inside prose is found neither by it nor by the whole pipeline, although
  \<^verbatim>\<open>extractJSONBoundaries\<close> finds it when given the brackets.
\<close>

theorem array_in_prose_not_found:
  \<open>isValidJSON ''[1,2]'' \<and>
   extractWithBraceCounting isValidJSON ''Here: [1,2] done'' = [] \<and>
   extractJSON isValidJSON ''Here: [1,2] done'' = [] \<and>
   extractJSONBoundaries isValidJSON ''Here: [1,2] done'' (CHR ''['') (CHR '']'') = ''[1,2]''\<close>
  by code_simp

text \<open>A closing brace ahead of an object makes the depth negative, and the object is missed.\<close>

lemma stray_closer_hides_object:
  \<open>isValidJSON ''{"a":1}'' \<and> extractWithBraceCounting isValidJSON ''} {"a":1}'' = []\<close>
  by code_simp

section \<open>Classification and retry\<close>

lemma google_classifyError_auth:
  assumes "Contains errStr ''authentication'' \<or> Contains errStr ''unauthorized''
           \<or> Contains errStr ''API key'' \<or> Contains errStr ''invalid api key''"
    and "\<not> Contains errStr ''connection refused''" and "\<not> Contains errStr ''no such host''"
    and "\<not> Contains errStr ''network is unreachable''" and "\<not> Contains errStr ''timeout''"
    and "\<not> Contains errStr ''context deadline exceeded''" and "\<not> Contains errStr ''deadline exceeded''"
  shows "google_classifyError errStr attempt operation
           = NewLLMError ErrInvalidConfig ''authentication failed'' operation False attempt (Some errStr)"
  using assms unfolding google_classifyError_def by (simp only: if_False disj_absorb if_True)

lemma attemptHead_first: "attemptHead env retryConfig 0 tr = tr @ [Call 0]"
  by (simp add: attemptHead_def)

lemma attemptHead_later:
  "0 < attempt \<Longrightarrow>
   attemptHead env retryConfig attempt tr
     = tr @ [Sleep (backoffDelay (outOfRange env) retryConfig attempt), Call attempt]"
  by (simp add: attemptHead_def)

text \<open>
  C1, as amended, for the Google client. A failure of the first network call whose text holds
  one of the authentication markers and none of the connectivity and deadline markers, which
  the classifier tests first, is classified as a configuration error that is not retryable, and
  the call returns that error after this one attempt, without a sleep, whatever the retry
  budget.
\<close>

theorem google_auth_failure_not_retried:
  assumes "0 \<le> MaxRetries retryConfig"
    and "invoke env 0 = Inl errStr"
    and "Contains errStr ''authentication'' \<or> Contains errStr ''unauthorized''
         \<or> Contains errStr ''API key'' \<or> Contains errStr ''invalid api key''"
    and "\<not> Contains errStr ''connection refused''" and "\<not> Contains errStr ''no such host''"
    and "\<not> Contains errStr ''network is unreachable''" and "\<not> Contains errStr ''timeout''"
    and "\<not> Contains errStr ''context deadline exceeded''" and "\<not> Contains errStr ''deadline exceeded''"
  shows "\<not> IsRetryable (google_classifyError errStr 0 ''chat'') \<and>
         google_ChatWithRetry env retryConfig
           = ((emptyResponse,
               Some (NewLLMError ErrInvalidConfig ''authentication failed'' ''chat'' False 0 (Some errStr))),
              [Call 0])"
proof -
  have c: "google_classifyError errStr 0 ''chat''
             = NewLLMError ErrInvalidConfig ''authentication failed'' ''chat'' False 0 (Some errStr)"
    using assms(3-9) by (rule google_classifyError_auth)
  have r: "\<not> IsRetryable (NewLLMError ErrInvalidConfig ''authentication failed'' ''chat'' False 0 (Some errStr))"
    by (simp add: IsRetryable_def NewLLMError_def)
  have "google_chatLoop env retryConfig 0 None []
          = ((emptyResponse,
              Some (NewLLMError ErrInvalidConfig ''authentication failed'' ''chat'' False 0 (Some errStr))),
             [Call 0])"
    using assms(1,2) r
    by (subst google_chatLoop.simps) (simp add: c attemptHead_first Let_def)
  with r show ?thesis
    by (simp add: c google_ChatWithRetry_def)
qed


theorem google_auth_failure_not_retried_witness:
  "Contains ''invalid api key'' ''invalid api key'' \<and>
   google_ChatWithRetry
     \<lparr>invoke = (\<lambda>attempt. Inl ''invalid api key''), validity = isValidJSON,
      target = (None :: (string \<Rightarrow> string + unit) option), outOfRange = (\<lambda>f. 0)\<rparr>
     DefaultRetryConfig
   = ((emptyResponse,
       Some (NewLLMError ErrInvalidConfig ''authentication failed'' ''chat'' False 0
               (Some ''invalid api key''))),
      [Call 0])"
proof -
  let ?env = "\<lparr>invoke = (\<lambda>attempt. Inl ''invalid api key''), validity = isValidJSON,
      target = (None :: (string \<Rightarrow> string + unit) option), outOfRange = (\<lambda>f. 0)\<rparr>"
  have h1: "0 \<le> MaxRetries DefaultRetryConfig" by (simp add: DefaultRetryConfig_def)
  have h2: "invoke ?env 0 = Inl ''invalid api key''" by simp
  have h3: "Contains ''invalid api key'' ''invalid api key''" by code_simp
  have h3': "Contains ''invalid api key'' ''authentication'' \<or> Contains ''invalid api key'' ''unauthorized''
         \<or> Contains ''invalid api key'' ''API key'' \<or> Contains ''invalid api key'' ''invalid api key''"
    using h3 by simp
  have h4: "\<not> Contains ''invalid api key'' ''connection refused''" by code_simp
  have h5: "\<not> Contains ''invalid api key'' ''no such host''" by code_simp
  have h6: "\<not> Contains ''invalid api key'' ''network is unreachable''" by code_simp
  have h7: "\<not> Contains ''invalid api key'' ''timeout''" by code_simp
  have h8: "\<not> Contains ''invalid api key'' ''context deadline exceeded''" by code_simp
  have h9: "\<not> Contains ''invalid api key'' ''deadline exceeded''" by code_simp
  from google_auth_failure_not_retried [OF h1 h2 h3' h4 h5 h6 h7 h8 h9] h3
  show ?thesis by simp
qed

text \<open>
  C1 as stated fails. The Google classifier tests the deadline markers before the
  authentication markers: a failure text with both is a retryable timeout, and all four
  attempts are made. The Ollama classifier has no authentication case: the text
  \<^verbatim>\<open>invalid api key\<close> is a retryable operation failure there.
\<close>

theorem auth_failure_retried_counterexample:
  "Contains ''request timeout: invalid api key'' ''invalid api key'' \<and>
   IsRetryable (google_classifyError ''request timeout: invalid api key'' 0 ''chat'') \<and>
   snd (google_ChatWithRetry
          \<lparr>invoke = (\<lambda>attempt. Inl ''request timeout: invalid api key''), validity = isValidJSON,
           target = (None :: (string \<Rightarrow> string + unit) option), outOfRange = (\<lambda>f. 0)\<rparr>
          DefaultRetryConfig)
     = [Call 0, Sleep 2000000000, Call 1, Sleep 4000000000, Call 2, Sleep 8000000000, Call 3] \<and>
   IsRetryable (ollama_classifyError ''invalid api key'' 0 ''chat'') \<and>
   snd (ollama_ChatWithRetry
          \<lparr>invoke = (\<lambda>attempt. Inl ''invalid api key''), validity = isValidJSON,
           target = (None :: (string \<Rightarrow> string + unit) option), outOfRange = (\<lambda>f. 0)\<rparr>
          DefaultRetryConfig)
     = [Call 0, Sleep 2000000000, Call 1, Sleep 4000000000, Call 2, Sleep 8000000000, Call 3]"
  by code_simp

section \<open>Empty responses\<close>

text \<open>
  The Google client turns an empty response into a retryable invalid-response error: when
  every attempt returns empty text, the call ends with that error, carrying the index of the
  last attempt.
\<close>

lemma google_chatLoop_empty:
  assumes "\<And>k. invoke env k = Inr []"
  shows "attempt \<le> MaxRetries retryConfig \<Longrightarrow>
         fst (google_chatLoop env retryConfig attempt lastErr tr)
           = (emptyResponse,
              Some (NewLLMError ErrInvalidResponse ''empty response from Google API'' ''chat'' True
                      (MaxRetries retryConfig) None))"
proof (induction "nat (MaxRetries retryConfig - attempt)" arbitrary: attempt lastErr tr)
  case 0
  then have "attempt = MaxRetries retryConfig" by simp
  then show ?case
    by (subst google_chatLoop.simps) (simp add: assms Let_def)
next
  case (Suc n)
  then have lt: "attempt < MaxRetries retryConfig" and n: "n = nat (MaxRetries retryConfig - (attempt + 1))"
    by simp_all
  have "attempt + 1 \<le> MaxRetries retryConfig" using lt by simp
  with Suc.hyps(1) [OF n] lt show ?case
    by (subst google_chatLoop.simps) (simp add: assms Let_def)
qed

lemma google_empty_response_exhausts:
  assumes "0 \<le> MaxRetries retryConfig" and "\<And>k. invoke env k = Inr []"
  shows "fst (google_ChatWithRetry env retryConfig)
           = (emptyResponse,
              Some (NewLLMError ErrInvalidResponse ''empty response from Google API'' ''chat'' True
                      (MaxRetries retryConfig) None))"
  unfolding google_ChatWithRetry_def using assms by (simp add: google_chatLoop_empty)

text \<open>
  C2. The Ollama client has no such test. With no target type, an empty response of the first
  attempt is returned as a success with the empty message; with a target type, the empty text
  fails extraction and the call ends with a JSON-parse error, not an invalid-response error.
\<close>

theorem ollama_empty_response_is_success:
  "ollama_ChatWithRetry
     \<lparr>invoke = (\<lambda>attempt. Inr []), validity = isValidJSON,
      target = (None :: (string \<Rightarrow> string + unit) option), outOfRange = (\<lambda>f. 0)\<rparr>
     DefaultRetryConfig
   = ((\<lparr>Message = [], Data = None\<rparr>, None), [Call 0]) \<and>
   map_option Type
     (snd (fst (ollama_ChatWithRetry
        \<lparr>invoke = (\<lambda>attempt. Inr []), validity = isValidJSON,
         target = Some (\<lambda>jsonStr. Inr ()), outOfRange = (\<lambda>f. 0)\<rparr>
        DefaultRetryConfig)))
   = Some ErrJSONParseFailed"
  by code_simp

section \<open>Backoff delays\<close>

lemma powLoop_exact:
  assumes "\<And>i. i \<le> j + m \<Longrightarrow> representable (r ^ i)"
  shows "powLoop (Finite r) m (Finite (r ^ j)) = Finite (r ^ (j + m))"
  using assms
proof (induction m arbitrary: j)
  case 0
  show ?case by simp
next
  case (Suc m)
  have "representable (r ^ Suc j)" by (rule Suc.prems) simp
  then have step: "mulFloat64 (Finite (r ^ j)) (Finite r) = Finite (r ^ Suc j)"
    by (simp add: representable_def mult.commute)
  have "powLoop (Finite r) m (Finite (r ^ Suc j)) = Finite (r ^ (Suc j + m))"
    by (rule Suc.IH) (rule Suc.prems, simp)
  with step show ?case by simp
qed

lemma pow_exact:
  assumes "\<And>i. i \<le> nat n \<Longrightarrow> representable (r ^ i)"
  shows "pow (Finite r) n = Finite (r ^ nat n)"
  using powLoop_exact [of 0 "nat n" r] assms by (simp add: pow_def)

lemma backoffDelay_exact:
  assumes "BackoffFactor retryConfig = Finite r"
    and "\<And>i. i \<le> nat (n - 1) \<Longrightarrow> representable (r ^ i)"
    and "representable (of_int (BaseDelay retryConfig))"
    and "representable (of_int (BaseDelay retryConfig) * r ^ nat (n - 1))"
    and "- (2 ^ 63) \<le> towardZero (of_int (BaseDelay retryConfig) * r ^ nat (n - 1))"
    and "towardZero (of_int (BaseDelay retryConfig) * r ^ nat (n - 1)) < 2 ^ 63"
  shows "backoffDelay oor retryConfig n
           = min (towardZero (of_int (BaseDelay retryConfig) * r ^ nat (n - 1))) (MaxDelay retryConfig)"
proof -
  have p: "pow (BackoffFactor retryConfig) (n - 1) = Finite (r ^ nat (n - 1))"
    unfolding assms(1) using assms(2) by (rule pow_exact)
  have m: "mulFloat64 (toFloat64 (of_int (BaseDelay retryConfig))) (Finite (r ^ nat (n - 1)))
             = Finite (of_int (BaseDelay retryConfig) * r ^ nat (n - 1))"
    using assms(3,4) by (simp add: representable_def)
  show ?thesis
    using assms(5,6) by (simp add: backoffDelay_def p m toInt64_def Let_def min_def)
qed


text \<open>Whole numbers below \<open>2\<^sup>5\<^sup>3\<close> are values of the format.\<close>

lemma roundEven_of_int: "roundEven (of_int z) = z"
  by (simp add: roundEven_def Let_def)

lemma towardZero_of_int: "towardZero (of_int z) = z"
  by (simp add: towardZero_def)

lemma toFloat64_pos:
  assumes "0 < x"
  shows "toFloat64 x =
           (if 972 \<le> max (ilog2 x - 52) (- 1074)
               \<or> (max (ilog2 x - 52) (- 1074) = 971
                   \<and> 2 ^ 53 \<le> roundEven (x / pow2 (max (ilog2 x - 52) (- 1074))))
            then PosInf
            else Finite (of_int (roundEven (x / pow2 (max (ilog2 x - 52) (- 1074))))
                         * pow2 (max (ilog2 x - 52) (- 1074))))"
proof -
  have "\<bar>x\<bar> = x" and "x \<noteq> 0" using assms by simp_all
  then show ?thesis
    unfolding toFloat64_def Let_def using assms by (simp only: if_False if_True)
qed

lemma representable_of_int:
  assumes "0 < n" and "n < 2 ^ 53"
  shows "representable (of_int n)"
proof -
  have b: "bitlen n \<le> 53"
    using assms(2) by (simp add: bitlen_le_iff_power)
  have "bitlen 1 = 1" by (simp add: bitlen_alt_def)
  then have "ilog2 (of_int n) \<le> bitlen n - 1"
    by (simp add: ilog2_def Let_def)
  with b have e: "ilog2 (of_int n) \<le> 52" by simp
  define q where "q = max (ilog2 (of_int n) - 52) (- 1074)"
  have q: "q \<le> 0" "- 1074 \<le> q" using e by (simp_all add: q_def)
  define k where "k = nat (- q)"
  have p: "pow2 q = 1 / 2 ^ k"
  proof (cases "q = 0")
    case True
    then show ?thesis by (simp add: pow2_def k_def)
  next
    case False
    with q show ?thesis by (simp add: pow2_def k_def)
  qed
  have d: "of_int n / pow2 q = (of_int (n * 2 ^ k) :: rat)"
    by (simp add: p)
  have m: "roundEven (of_int n / pow2 q) = n * 2 ^ k"
    by (simp only: d roundEven_of_int)
  have v: "(of_int (n * 2 ^ k) :: rat) * pow2 q = of_int n"
    by (simp add: p)
  have x: "0 < (of_int n :: rat)" using assms(1) by simp
  have "toFloat64 (of_int n) =
          (if 972 \<le> q \<or> (q = 971 \<and> 2 ^ 53 \<le> n * 2 ^ k) then PosInf
           else Finite (of_int (n * 2 ^ k) * pow2 q))"
    unfolding toFloat64_pos [OF x] q_def [symmetric] m ..
  also have "\<dots> = Finite (of_int n)"
    using q(1) by (simp only: v) simp
  finally show ?thesis by (simp add: representable_def)
qed

text \<open>
  C9, as amended. The delay is computed in 64-bit floating point and converted to whole
  nanoseconds by discarding the fraction. Where the computation is exact (the base delay, the
  powers of the multiplier up to \<open>n - 1\<close> and the product are values of the format) and the
  product is in the range of a 64-bit integer, the delay slept before attempt \<open>n \<ge> 1\<close> is the
  product without its fraction, capped at the maximum; attempt 0 is made without a sleep; and
  the default policy sleeps 2, 4 and 8 seconds before attempts 1, 2 and 3.
\<close>

theorem backoff_delay_formula:
  assumes "1 \<le> n"
    and "BackoffFactor retryConfig = Finite r"
    and "\<forall>i \<le> nat (n - 1). representable (r ^ i)"
    and "representable (of_int (BaseDelay retryConfig))"
    and "representable (of_int (BaseDelay retryConfig) * r ^ nat (n - 1))"
    and "- (2 ^ 63) \<le> towardZero (of_int (BaseDelay retryConfig) * r ^ nat (n - 1))"
    and "towardZero (of_int (BaseDelay retryConfig) * r ^ nat (n - 1)) < 2 ^ 63"
  shows "attemptHead env retryConfig 0 tr = tr @ [Call 0] \<and>
         attemptHead env retryConfig n tr
           = tr @ [Sleep (min (towardZero (of_int (BaseDelay retryConfig) * r ^ nat (n - 1)))
                            (MaxDelay retryConfig)),
                   Call n] \<and>
         map (backoffDelay (outOfRange env) DefaultRetryConfig) [1, 2, 3]
           = [2000000000, 4000000000, 8000000000]"
proof -
  have d: "backoffDelay (outOfRange env) retryConfig n
             = min (towardZero (of_int (BaseDelay retryConfig) * r ^ nat (n - 1))) (MaxDelay retryConfig)"
    using assms(2-7) by (intro backoffDelay_exact) simp_all
  have c: "backoffDelay oor DefaultRetryConfig k = min (2000000000 * 2 ^ nat (k - 1)) 30000000000"
    if "k \<in> {1, 2, 3}" for k oor
  proof -
    have i: "representable (2 ^ i)" if "i \<le> nat (k - 1)" for i
    proof -
      have "i \<le> 2" using that \<open>k \<in> {1, 2, 3}\<close> by auto
      then have "(2::int) ^ i \<le> 2 ^ 2" by (intro power_increasing) simp_all
      then have "representable (of_int (2 ^ i))"
        by (intro representable_of_int) simp_all
      then show ?thesis by simp
    qed
    have le: "(2::int) ^ nat (k - 1) \<le> 2 ^ 2"
      using that by (intro power_increasing) auto
    have pos: "0 < (2::int) ^ nat (k - 1)" by simp
    have b: "representable (of_int (2000000000 * 2 ^ nat (k - 1)))"
      using le by (intro representable_of_int) simp_all
    have eq: "(of_int (BaseDelay DefaultRetryConfig) :: rat) * 2 ^ nat (k - 1)
                = of_int (2000000000 * 2 ^ nat (k - 1))"
      by (simp add: DefaultRetryConfig_def)
    have "(0::int) \<le> 2000000000 * 2 ^ nat (k - 1)" by simp
    moreover have "- (2 ^ 63) \<le> (0::int)" by simp
    ultimately have lo: "- (2 ^ 63) \<le> 2000000000 * (2::int) ^ nat (k - 1)"
      by (rule order_trans [rotated])
    have "2000000000 * (2::int) ^ nat (k - 1) \<le> 2000000000 * 2 ^ 2"
      using le by (intro mult_left_mono) simp_all
    moreover have "2000000000 * (2::int) ^ 2 < 2 ^ 63" by simp
    ultimately have hi: "2000000000 * (2::int) ^ nat (k - 1) < 2 ^ 63"
      by (rule le_less_trans)
    have "backoffDelay oor DefaultRetryConfig k
            = min (towardZero (of_int (BaseDelay DefaultRetryConfig) * 2 ^ nat (k - 1)))
                (MaxDelay DefaultRetryConfig)"
    proof (rule backoffDelay_exact)
      show "BackoffFactor DefaultRetryConfig = Finite 2" by (simp add: DefaultRetryConfig_def)
      show "representable (2 ^ i)" if "i \<le> nat (k - 1)" for i using that by (rule i)
      show "representable (of_int (BaseDelay DefaultRetryConfig))"
        using representable_of_int [of 2000000000] by (simp add: DefaultRetryConfig_def)
      show "representable (of_int (BaseDelay DefaultRetryConfig) * 2 ^ nat (k - 1))"
        unfolding eq by (rule b)
      show "- (2 ^ 63) \<le> towardZero (of_int (BaseDelay DefaultRetryConfig) * 2 ^ nat (k - 1))"
        unfolding eq towardZero_of_int by (rule lo)
      show "towardZero (of_int (BaseDelay DefaultRetryConfig) * 2 ^ nat (k - 1)) < 2 ^ 63"
        unfolding eq towardZero_of_int by (rule hi)
    qed
    also have "\<dots> = min (2000000000 * 2 ^ nat (k - 1)) (MaxDelay DefaultRetryConfig)"
      unfolding eq towardZero_of_int ..
    finally show ?thesis by (simp add: DefaultRetryConfig_def)
  qed
  have "backoffDelay (outOfRange env) DefaultRetryConfig 1 = 2000000000"
    "backoffDelay (outOfRange env) DefaultRetryConfig 2 = 4000000000"
    "backoffDelay (outOfRange env) DefaultRetryConfig 3 = 8000000000"
    by (simp_all add: c)
  with d assms(1) show ?thesis
    by (simp add: attemptHead_first attemptHead_later)
qed


theorem backoff_delay_formula_witness:
  "1 \<le> (3::int) \<and> BackoffFactor DefaultRetryConfig = Finite 2 \<and>
   representable (of_int (BaseDelay DefaultRetryConfig) * 2 ^ nat (3 - 1)) \<and>
   attemptHead
     \<lparr>invoke = (\<lambda>attempt. Inr []), validity = isValidJSON,
      target = (None :: (string \<Rightarrow> string + unit) option), outOfRange = (\<lambda>f. 0)\<rparr>
     DefaultRetryConfig 3 []
   = [Sleep 8000000000, Call 3]"
proof -
  let ?env = "\<lparr>invoke = (\<lambda>attempt. Inr []), validity = isValidJSON,
      target = (None :: (string \<Rightarrow> string + unit) option), outOfRange = (\<lambda>f. 0)\<rparr>"
  have h1: "1 \<le> (3::int)" by simp
  have h2: "BackoffFactor DefaultRetryConfig = Finite 2" by (simp add: DefaultRetryConfig_def)
  have h3: "\<forall>i \<le> nat (3 - 1). representable (2 ^ i)"
  proof (intro allI impI)
    fix i :: nat
    assume "i \<le> nat (3 - 1)"
    then have "i \<le> 2" by simp
    then have "(2::int) ^ i \<le> 2 ^ 2" by (intro power_increasing) simp_all
    then have "representable (of_int (2 ^ i))" by (intro representable_of_int) simp_all
    then show "representable (2 ^ i)" by simp
  qed
  have h4: "representable (of_int (BaseDelay DefaultRetryConfig))"
    using representable_of_int [of 2000000000] by (simp add: DefaultRetryConfig_def)
  have h5: "representable (of_int (BaseDelay DefaultRetryConfig) * 2 ^ nat (3 - 1))"
    using representable_of_int [of 8000000000] by (simp add: DefaultRetryConfig_def)
  have v: "towardZero (of_int (BaseDelay DefaultRetryConfig) * 2 ^ nat (3 - 1)) = 8000000000"
    using towardZero_of_int [of 8000000000] by (simp add: DefaultRetryConfig_def)
  have h6: "- (2 ^ 63) \<le> towardZero (of_int (BaseDelay DefaultRetryConfig) * 2 ^ nat (3 - 1))"
    unfolding v by simp
  have h7: "towardZero (of_int (BaseDelay DefaultRetryConfig) * 2 ^ nat (3 - 1)) < 2 ^ 63"
    unfolding v by simp
  have "attemptHead ?env DefaultRetryConfig 3 []
          = [] @ [Sleep (min (towardZero (of_int (BaseDelay DefaultRetryConfig) * 2 ^ nat (3 - 1)))
                           (MaxDelay DefaultRetryConfig)), Call 3]"
    using backoff_delay_formula [OF h1 h2 h3 h4 h5 h6 h7, of ?env "[]"] by (rule conjunct1 [OF conjunct2])
  then have "attemptHead ?env DefaultRetryConfig 3 [] = [Sleep 8000000000, Call 3]"
    unfolding v by (simp add: DefaultRetryConfig_def)
  with h1 h2 h5 show ?thesis by (intro conjI)
qed

text \<open>
  C9 as stated fails where the product has a fraction: with a base delay of one millisecond and
  the multiplier 1.5, the delay before attempt 8 is 17085937 nanoseconds, and the formula gives
  17085937.5.
\<close>

theorem backoff_delay_fraction_counterexample:
  "backoffDelay (\<lambda>f. 0)
     \<lparr>MaxRetries = 8, BaseDelay = 1000000, MaxDelay = 30000000000, BackoffFactor = Finite (3 / 2)\<rparr> 8
     = 17085937 \<and>
   min (of_int 1000000 * (3 / 2) ^ nat (8 - 1)) (of_int 30000000000) = (34171875 / 2 :: rat) \<and>
   representable (3 / 2)"
  by code_simp

text \<open>
  Beyond the range of a 64-bit integer the cap is not reached on every implementation: with the
  default policy the product exceeds the range from attempt 34 on, and on amd64 the delay is
  then negative (no sleep at all) and not the maximum.
\<close>

lemma default_policy_overflow:
  "backoffDelay convertAMD64 DefaultRetryConfig 33 = 30000000000 \<and>
   backoffDelay convertAMD64 DefaultRetryConfig 34 = - 9223372036854775808"
  by code_simp

section \<open>Provider caching\<close>

text \<open>
  \<^verbatim>\<open>LoadConfig\<close> accepts every configuration whose default provider is named and configured:
  it stores the configuration and empties both caches. It accepts no other configuration, and
  leaves the factory as it was when it rejects one.
\<close>

lemma LoadConfig_accepts:
  assumes "DefaultProvider newConfig \<noteq> []"
    and "Providers newConfig (DefaultProvider newConfig) \<noteq> None"
  shows "LoadConfig f newConfig
           = (None, f\<lparr>config := newConfig, providerCache := Map.empty, modelCache := Map.empty\<rparr>)"
proof -
  have "DefaultProvider newConfig \<in> dom (Providers newConfig)"
    using assms(2) by (simp add: dom_def)
  then have "dom (Providers newConfig) \<noteq> {}" by blast
  with assms show ?thesis by (simp add: LoadConfig_def)
qed

lemma LoadConfig_rejects:
  assumes "DefaultProvider newConfig = [] \<or> Providers newConfig (DefaultProvider newConfig) = None"
  shows "fst (LoadConfig f newConfig) \<noteq> None \<and> snd (LoadConfig f newConfig) = f"
  using assms by (auto simp: LoadConfig_def)

text \<open>
  C10. A provider cached under a name is what \<^verbatim>\<open>CreateProvider\<close> returns for that name, for every
  configuration map: the factory is left as it was, and no constructor is invoked. \<^verbatim>\<open>LoadConfig\<close>,
  given a configuration whose default provider is named and configured, stores it and empties
  both caches (and whenever it returns no error it has done so), and \<^verbatim>\<open>ClearProviderCache\<close>
  empties the provider cache; with the name no longer cached, the next \<^verbatim>\<open>CreateProvider\<close> invokes
  the registered constructor with the configuration map it is given.
\<close>

theorem cached_provider_ignores_config:
  "(providerCache f name = Some provider \<longrightarrow> CreateProvider f name cfg = (Inr provider, f)) \<and>
   (DefaultProvider newConfig \<noteq> [] \<and> Providers newConfig (DefaultProvider newConfig) \<noteq> None \<longrightarrow>
      LoadConfig f newConfig
        = (None, f\<lparr>config := newConfig, providerCache := Map.empty, modelCache := Map.empty\<rparr>)) \<and>
   (LoadConfig f newConfig = (None, f') \<longrightarrow>
      config f' = newConfig \<and> providerCache f' = Map.empty \<and> modelCache f' = Map.empty) \<and>
   providerCache (ClearProviderCache f) = Map.empty \<and>
   (providerCache f name = None \<and> registry f name = Some constructor \<and> constructor cfg = Inr provider' \<longrightarrow>
      CreateProvider f name cfg
        = (Inr provider',
           f\<lparr>constructed := constructed f @ [(name, cfg)],
             providerCache := (providerCache f)(name \<mapsto> provider')\<rparr>))"
proof (intro conjI impI)
  assume "providerCache f name = Some provider"
  then show "CreateProvider f name cfg = (Inr provider, f)"
    by (simp add: CreateProvider_def createProviderUnsafe_def)
next
  assume "DefaultProvider newConfig \<noteq> [] \<and> Providers newConfig (DefaultProvider newConfig) \<noteq> None"
  then show "LoadConfig f newConfig
        = (None, f\<lparr>config := newConfig, providerCache := Map.empty, modelCache := Map.empty\<rparr>)"
    by (intro LoadConfig_accepts) simp_all
next
  assume l: "LoadConfig f newConfig = (None, f')"
  then have "f' = f\<lparr>config := newConfig, providerCache := Map.empty, modelCache := Map.empty\<rparr>"
    by (simp add: LoadConfig_def split: if_splits)
  then show "config f' = newConfig" and "providerCache f' = Map.empty" and "modelCache f' = Map.empty"
    by simp_all
next
  show "providerCache (ClearProviderCache f) = Map.empty"
    by (simp add: ClearProviderCache_def)
next
  assume "providerCache f name = None \<and> registry f name = Some constructor \<and> constructor cfg = Inr provider'"
  then show "CreateProvider f name cfg
        = (Inr provider',
           f\<lparr>constructed := constructed f @ [(name, cfg)],
             providerCache := (providerCache f)(name \<mapsto> provider')\<rparr>)"
    by (simp add: CreateProvider_def createProviderUnsafe_def Create_def Let_def)
qed

text \<open>
  On the example factory: the instance cached under \<^verbatim>\<open>google\<close> is returned for a new API key
  and no constructor runs; \<^verbatim>\<open>LoadConfig\<close> accepts the example configuration, stores it and
  empties the caches; after it, as after \<^verbatim>\<open>ClearProviderCache\<close>, the constructor is invoked with
  the new key.
\<close>

theorem cached_provider_ignores_config_witness:
  "providerCache exampleFactory ''google'' = Some 3 \<and>
   CreateProvider exampleFactory ''google'' [''api_key'' \<mapsto> StringValue ''another-key'']
     = (Inr 3, exampleFactory) \<and>
   constructed (snd (CreateProvider exampleFactory ''google'' [''api_key'' \<mapsto> StringValue ''another-key''])) = [] \<and>
   DefaultProvider exampleConfig \<noteq> [] \<and>
   Providers exampleConfig (DefaultProvider exampleConfig) \<noteq> None \<and>
   LoadConfig exampleFactory exampleConfig
     = (None, exampleFactory\<lparr>config := exampleConfig, providerCache := Map.empty,
                              modelCache := Map.empty\<rparr>) \<and>
   config (snd (LoadConfig exampleFactory exampleConfig)) = exampleConfig \<and>
   providerCache (snd (LoadConfig exampleFactory exampleConfig)) = Map.empty \<and>
   modelCache (snd (LoadConfig exampleFactory exampleConfig)) = Map.empty \<and>
   CreateProvider (snd (LoadConfig exampleFactory exampleConfig)) ''google''
       [''api_key'' \<mapsto> StringValue ''another-key'']
     = (Inr 11,
        exampleFactory\<lparr>config := exampleConfig, modelCache := Map.empty,
          constructed := [(''google'', [''api_key'' \<mapsto> StringValue ''another-key''])],
          providerCache := [''google'' \<mapsto> 11]\<rparr>) \<and>
   fst (CreateProvider (ClearProviderCache exampleFactory) ''google'' [''api_key'' \<mapsto> StringValue ''another-key''])
     = Inr 11"
proof -
  let ?cfg = "[''api_key'' \<mapsto> StringValue ''another-key'']"
  let ?ctor = "\<lambda>cfg :: configMap. case cfg ''api_key'' of
                   Some (StringValue k) \<Rightarrow> (Inr (length k) :: LLMError + nat)
                 | _ \<Rightarrow> Inl (NewLLMError ErrInvalidConfig ''API key is required for Google provider''
                               ''provider_creation'' False 0 None)"
  let ?loaded = "exampleFactory\<lparr>config := exampleConfig, providerCache := Map.empty,
                                 modelCache := Map.empty\<rparr>"
  have h: "providerCache exampleFactory ''google'' = Some 3"
    by (simp add: exampleFactory_def)
  have v: "DefaultProvider exampleConfig \<noteq> [] \<and> Providers exampleConfig (DefaultProvider exampleConfig) \<noteq> None"
    by (simp add: exampleConfig_def)
  note t = cached_provider_ignores_config [of exampleFactory "''google''" 3 ?cfg exampleConfig ?loaded]
  from t h have c: "CreateProvider exampleFactory ''google'' ?cfg = (Inr 3, exampleFactory)"
    by blast
  from t v have l: "LoadConfig exampleFactory exampleConfig = (None, ?loaded)"
    by blast
  from t l have s: "config ?loaded = exampleConfig \<and> providerCache ?loaded = Map.empty
                    \<and> modelCache ?loaded = Map.empty"
    by blast
  have g': "providerCache ?loaded ''google'' = None \<and> registry ?loaded ''google'' = Some ?ctor
            \<and> ?ctor ?cfg = Inr 11"
    by (simp add: exampleFactory_def)
  from cached_provider_ignores_config [of ?loaded "''google''" _ ?cfg _ _ ?ctor 11] g'
  have n: "CreateProvider ?loaded ''google'' ?cfg
             = (Inr 11, ?loaded\<lparr>constructed := constructed ?loaded @ [(''google'', ?cfg)],
                                  providerCache := (providerCache ?loaded)(''google'' \<mapsto> 11)\<rparr>)"
    by blast
  have g: "providerCache (ClearProviderCache exampleFactory) ''google'' = None
           \<and> registry (ClearProviderCache exampleFactory) ''google'' = Some ?ctor
           \<and> ?ctor ?cfg = Inr 11"
    by (simp add: ClearProviderCache_def exampleFactory_def)
  from cached_provider_ignores_config [of "ClearProviderCache exampleFactory" "''google''" _ ?cfg _ _ ?ctor 11] g
  have k: "fst (CreateProvider (ClearProviderCache exampleFactory) ''google'' ?cfg) = Inr 11"
    by simp
  have e: "?loaded\<lparr>constructed := constructed ?loaded @ [(''google'', ?cfg)],
                     providerCache := (providerCache ?loaded)(''google'' \<mapsto> 11)\<rparr>
           = exampleFactory\<lparr>config := exampleConfig, modelCache := Map.empty,
               constructed := [(''google'', ?cfg)], providerCache := [''google'' \<mapsto> 11]\<rparr>"
    by (simp add: exampleFactory_def)
  have c': "constructed (snd (CreateProvider exampleFactory ''google'' ?cfg)) = []"
    unfolding c by (simp add: exampleFactory_def)
  have s': "config (snd (LoadConfig exampleFactory exampleConfig)) = exampleConfig"
    "providerCache (snd (LoadConfig exampleFactory exampleConfig)) = Map.empty"
    "modelCache (snd (LoadConfig exampleFactory exampleConfig)) = Map.empty"
    unfolding l snd_conv using s by blast+
  have n': "CreateProvider (snd (LoadConfig exampleFactory exampleConfig)) ''google'' ?cfg
              = (Inr 11,
                 exampleFactory\<lparr>config := exampleConfig, modelCache := Map.empty,
                   constructed := [(''google'', ?cfg)], providerCache := [''google'' \<mapsto> 11]\<rparr>)"
    unfolding l snd_conv n e ..
  from v have v1: "DefaultProvider exampleConfig \<noteq> []"
    and v2: "Providers exampleConfig (DefaultProvider exampleConfig) \<noteq> None"
    by blast+
  from h c c' v1 v2 l s' n' k show ?thesis
    by (intro conjI)
qed

end
